theory Spec2Isabelle
  imports Main "HOL-Library.Word" "HOL-Library.Sublist"
begin

section \<open>Pod replacement (pkg/devspace/services/podreplace/replace.go)\<close>

text \<open>
  The reconciler talks to three collaborators: the cluster API, the remote cache and a
  few helpers of the repository (target resolution, the replacement builder, the config
  hasher, the merge-patch helper). Every call to a collaborator is written to a trace,
  and the collaborator's answer is a function of the trace so far, so that a theorem
  that quantifies over the environment covers every cluster behaviour, races by other
  processes included.
\<close>

subsection \<open>Errors\<close>

text \<open>
  \<open>NotFound\<close> and \<open>AlreadyExists\<close> are the two status reasons the code tests for;
  \<open>ApiError\<close> is any other failure of a remote call. \<open>Wrap e msg\<close> is
  \<^verbatim>\<open>errors.Wrap(e, msg)\<close>; \<open>Errorf msg cause\<close> is \<^verbatim>\<open>fmt.Errorf\<close> with
  the cause formatted by \<^verbatim>\<open>%v\<close> (so it is not unwrappable).
\<close>

datatype err =
    NotFound
  | AlreadyExists
  | ApiError string
  | ErrWaitTimeout
  | Errorf string "err option"
  | Wrap err string

text \<open>\<^verbatim>\<open>kerrors.IsNotFound\<close> and \<^verbatim>\<open>kerrors.IsAlreadyExists\<close> look through wrapped errors.\<close>

fun IsNotFound :: "err \<Rightarrow> bool" where
  "IsNotFound NotFound = True"
| "IsNotFound (Wrap e msg) = IsNotFound e"
| "IsNotFound e = False"

fun IsAlreadyExists :: "err \<Rightarrow> bool" where
  "IsAlreadyExists AlreadyExists = True"
| "IsAlreadyExists (Wrap e msg) = IsAlreadyExists e"
| "IsAlreadyExists e = False"

subsection \<open>Constants\<close>

definition TargetKindAnnotation :: string where
  "TargetKindAnnotation = ''devspace.sh/parent-kind''"

definition TargetNameAnnotation :: string where
  "TargetNameAnnotation = ''devspace.sh/parent-name''"

definition DevPodConfigHashAnnotation :: string where
  "DevPodConfigHashAnnotation = ''devspace.sh/config-hash''"

definition ReplicasAnnotation :: string where
  "ReplicasAnnotation = ''devspace.sh/replicas''"

text \<open>\<^verbatim>\<open>time.Duration\<close> counts nanoseconds.\<close>

definition time_Second :: int where
  "time_Second = 1000000000"

definition time_Minute :: int where
  "time_Minute = 60 * time_Second"

subsection \<open>Data model\<close>

text \<open>The Go type behind a \<^verbatim>\<open>runtime.Object\<close>: what the type switch dispatches on.\<close>

datatype objType = ReplicaSetT | DeploymentT | StatefulSetT | OtherT

text \<open>The pod template is opaque to this package.\<close>

datatype podTemplateSpec = PodTemplate string

text \<open>
  A scalable workload: a deployment, a stateful set or a replica set (the replacement is
  a replica set too). \<open>objAnnotations = None\<close> is Go's nil map; \<open>specReplicas\<close> is the
  \<^verbatim>\<open>*int32\<close> of the spec.
\<close>

record workload =
  goType :: objType
  objKind :: string
  objNamespace :: string
  objName :: string
  objUID :: string
  objAnnotations :: "(string \<rightharpoonup> string) option"
  specReplicas :: "32 word option"
  specTemplate :: podTemplateSpec

record devContainer =
  PersistPaths :: "string list"

record persistenceOptions =
  poSize :: string
  poStorageClassName :: string
  poAccessModes :: "string list option"
  poName :: string

text \<open>
  Modelled from the spec: the dev pod declaration (package \<^verbatim>\<open>latest\<close> is not part of
  the sources): name, namespace, a list of dev-container descriptors and optional
  persistence options. The selector and the template overrides are only read by
  collaborators, which receive the whole declaration; \<open>dpConfig\<close> stands for them.
\<close>

record devPod =
  dpName :: string
  dpNamespace :: string
  dpConfig :: string
  dpContainers :: "devContainer list"
  dpPersistenceOptions :: "persistenceOptions option"

text \<open>Modelled from the spec: the cache entry of package \<^verbatim>\<open>remotecache\<close>.\<close>

record devPodCache =
  cName :: string
  cNamespace :: string
  cTargetKind :: string
  cTargetName :: string
  cReplicaSet :: string

definition zeroDevPodCache :: devPodCache where
  "zeroDevPodCache =
     \<lparr>cName = [], cNamespace = [], cTargetKind = [], cTargetName = [], cReplicaSet = []\<rparr>"

text \<open>A parsed \<^verbatim>\<open>resource.Quantity\<close>, identified by the text it was parsed from.\<close>

datatype quantity = Quantity string

record ownerReference =
  orAPIVersion :: string
  orKind :: string
  orName :: string
  orUID :: string
  orController :: "bool option"

record persistentVolumeClaim =
  pvcName :: string
  pvcNamespace :: string
  pvcOwnerReferences :: "ownerReference list"
  pvcAccessModes :: "string list"
  pvcStorageRequest :: quantity
  pvcStorageClassName :: "string option"

subsection \<open>Merge patches\<close>

text \<open>
  Modelled from the spec: the merge patch of package \<^verbatim>\<open>pkg/util/patch\<close>, "a
  partial-update request expressing only the changed fields relative to a prior
  snapshot". A field of the patch is \<open>None\<close> when the two objects agree on it; an
  annotation key maps to \<open>None\<close> when untouched, to \<open>Some None\<close> when removed and to
  \<open>Some (Some v)\<close> when set to \<open>v\<close>. A nil and an empty annotation map serialise alike.
\<close>

record mergePatch =
  patchKind :: "string option"
  patchNamespace :: "string option"
  patchName :: "string option"
  patchUID :: "string option"
  patchAnnotations :: "string \<Rightarrow> string option option"
  patchReplicas :: "32 word option option"
  patchTemplate :: "podTemplateSpec option"

definition changed :: "'a \<Rightarrow> 'a \<Rightarrow> 'a option" where
  "changed old new = (if new = old then None else Some new)"

definition annotationsOf :: "workload \<Rightarrow> (string \<rightharpoonup> string)" where
  "annotationsOf w = (case objAnnotations w of None \<Rightarrow> Map.empty | Some m \<Rightarrow> m)"

definition MergeFrom :: "workload \<Rightarrow> workload \<Rightarrow> mergePatch" where
  "MergeFrom original modified =
     \<lparr>patchKind = changed (objKind original) (objKind modified),
      patchNamespace = changed (objNamespace original) (objNamespace modified),
      patchName = changed (objName original) (objName modified),
      patchUID = changed (objUID original) (objUID modified),
      patchAnnotations = (\<lambda>k. changed (annotationsOf original k) (annotationsOf modified k)),
      patchReplicas = changed (specReplicas original) (specReplicas modified),
      patchTemplate = changed (specTemplate original) (specTemplate modified)\<rparr>"

subsection \<open>Calls to collaborators, and the environment that answers them\<close>

datatype call =
    GetReplicaSet string string
  | CreateReplicaSet workload
  | DeleteReplicaSet string string
  | PatchObject objType string string mergePatch
  | CreatePVC persistentVolumeClaim
  | DeletePVC string string
  | GetPVC string string
  | SaveCache "string \<rightharpoonup> devPodCache"
  | FindTargetBySelector devPod
  | FindTargetByKindName string string string

text \<open>An event is a call together with its failure, if any.\<close>

datatype event = Event call "err option"

text \<open>
  The environment. The first argument of a remote call is the trace of the events
  before it. \<open>buildReplicaSet\<close>, \<open>hashConfig\<close> (functions of this package whose
  bodies are not part of the sources, pure by their contract), the semantic equality
  of pod templates, the quantity parser and the JSON encoder behind a patch are
  parameters.
\<close>

record env =
  clientNamespace :: string
  getReplicaSet :: "event list \<Rightarrow> string \<Rightarrow> string \<Rightarrow> err + workload"
  createReplicaSet :: "event list \<Rightarrow> workload \<Rightarrow> err + workload"
  deleteReplicaSetCall :: "event list \<Rightarrow> string \<Rightarrow> string \<Rightarrow> err option"
  patchObject :: "event list \<Rightarrow> objType \<Rightarrow> string \<Rightarrow> string \<Rightarrow> mergePatch \<Rightarrow> err option"
  createClaim :: "event list \<Rightarrow> persistentVolumeClaim \<Rightarrow> err option"
  deleteClaim :: "event list \<Rightarrow> string \<Rightarrow> string \<Rightarrow> err option"
  getClaim :: "event list \<Rightarrow> string \<Rightarrow> string \<Rightarrow> err option"
  saveCache :: "event list \<Rightarrow> (string \<rightharpoonup> devPodCache) \<Rightarrow> err option"
  findTargetBySelector :: "event list \<Rightarrow> devPod \<Rightarrow> err + workload option"
  findTargetByKindName :: "event list \<Rightarrow> string \<Rightarrow> string \<Rightarrow> string \<Rightarrow> err + workload"
  buildReplicaSet :: "string \<Rightarrow> workload \<Rightarrow> devPod \<Rightarrow> err + workload"
  hashConfig :: "devPod \<Rightarrow> err + string"
  semanticDeepEqual :: "podTemplateSpec \<Rightarrow> podTemplateSpec \<Rightarrow> bool"
  quantityError :: "string \<Rightarrow> err option"
  marshalError :: "workload \<Rightarrow> err option"

text \<open>
  The state threaded through the code: the trace, the in-memory remote cache, and the
  time the code has spent waiting so far, a \<^verbatim>\<open>time.Duration\<close>.
\<close>

record state =
  trace :: "event list"
  cache :: "string \<rightharpoonup> devPodCache"
  clock :: int

definition logEvent :: "call \<Rightarrow> err option \<Rightarrow> state \<Rightarrow> state" where
  "logEvent c r st = st\<lparr>trace := trace st @ [Event c r]\<rparr>"

definition errOf :: "err + 'a \<Rightarrow> err option" where
  "errOf r = (case r of Inl e \<Rightarrow> Some e | Inr x \<Rightarrow> None)"

subsection \<open>Decimal strings (\<^verbatim>\<open>strconv.Itoa\<close>)\<close>

definition digitChar :: "nat \<Rightarrow> char" where
  "digitChar d = ''0123456789'' ! d"

fun digitsOf :: "nat \<Rightarrow> string" where
  "digitsOf n = (if n < 10 then [digitChar n] else digitsOf (n div 10) @ [digitChar (n mod 10)])"

declare digitsOf.simps [simp del]

definition Itoa :: "int \<Rightarrow> string" where
  "Itoa i = (if i < 0 then CHR ''-'' # digitsOf (nat (- i)) else digitsOf (nat i))"

text \<open>Reading a digit string back, to say what "decimal" means.\<close>

definition digitValue :: "char \<Rightarrow> nat" where
  "digitValue c = of_char c - 48"

definition decimalValue :: "string \<Rightarrow> nat" where
  "decimalValue s = foldl (\<lambda>a c. 10 * a + digitValue c) 0 s"

definition isDigit :: "char \<Rightarrow> bool" where
  "isDigit c = (48 \<le> (of_char c :: nat) \<and> (of_char c :: nat) \<le> 57)"

subsection \<open>scaleDownTarget\<close>

text \<open>
  \<^verbatim>\<open>patch2.MergeFrom(cloned)\<close> followed by \<^verbatim>\<open>patch.Data(t)\<close>: encoding can fail,
  otherwise the patch holds the fields on which the two objects differ.
\<close>

definition patch_Data :: "env \<Rightarrow> workload \<Rightarrow> workload \<Rightarrow> err + mergePatch" where
  "patch_Data env original modified =
     (case marshalError env modified of
        Some e \<Rightarrow> Inl e
      | None \<Rightarrow> Inr (MergeFrom original modified))"

definition doPatch :: "env \<Rightarrow> objType \<Rightarrow> string \<Rightarrow> string \<Rightarrow> mergePatch \<Rightarrow> state \<Rightarrow> err option \<times> state" where
  "doPatch env res ns n p st =
     (let r = patchObject env (trace st) res ns n p
      in (r, logEvent (PatchObject res ns n p) r st))"

text \<open>The replica count the code reads: 1 when the pointer is nil, else its value as an \<^verbatim>\<open>int\<close>.\<close>

definition replicaCount :: "workload \<Rightarrow> int" where
  "replicaCount t = (case specReplicas t of None \<Rightarrow> 1 | Some r \<Rightarrow> sint r)"

text \<open>
  The body shared by the three cases of the type switch; \<open>res\<close> is the resource whose
  \<^verbatim>\<open>Patch\<close> the case calls. The object is mutated in place in Go, so the mutated
  object is returned beside the error.
\<close>

definition scaleDownCase :: "env \<Rightarrow> objType \<Rightarrow> workload \<Rightarrow> workload \<Rightarrow> state \<Rightarrow> (err option \<times> workload) \<times> state" where
  "scaleDownCase env res cloned obj st =
     (let t = obj\<lparr>objAnnotations := Some (annotationsOf obj)\<rparr>;
          replicas = replicaCount t
      in if replicas = 0 then ((None, t), st)
         else
           let t' = t\<lparr>objAnnotations := Some ((annotationsOf t)(ReplicasAnnotation \<mapsto> Itoa replicas)),
                     specReplicas := Some 0\<rparr>
           in case patch_Data env cloned t' of
                Inl e \<Rightarrow> ((Some e, t'), st)
              | Inr bytes \<Rightarrow>
                  (case doPatch env res (objNamespace t') (objName t') bytes st of
                     (Some e, st') \<Rightarrow> ((Some e, t'), st')
                   | (None, st') \<Rightarrow> ((None, t'), st')))"

definition scaleDownTarget :: "env \<Rightarrow> workload \<Rightarrow> state \<Rightarrow> (err option \<times> workload) \<times> state" where
  "scaleDownTarget env obj st =
     (let cloned = obj
      in case goType obj of
           ReplicaSetT \<Rightarrow> scaleDownCase env ReplicaSetT cloned obj st
         | DeploymentT \<Rightarrow> scaleDownCase env DeploymentT cloned obj st
         | StatefulSetT \<Rightarrow> scaleDownCase env StatefulSetT cloned obj st
         | OtherT \<Rightarrow> ((Some (Errorf ''unrecognized object'' None), obj), st))"

subsection \<open>deleteReplicaSet and updateNeeded\<close>

definition deleteReplicaSet :: "env \<Rightarrow> workload \<Rightarrow> state \<Rightarrow> err option \<times> state" where
  "deleteReplicaSet env replicaSet st =
     (let r = deleteReplicaSetCall env (trace st) (objNamespace replicaSet) (objName replicaSet);
          st' = logEvent (DeleteReplicaSet (objNamespace replicaSet) (objName replicaSet)) r st
      in case r of
           Some e \<Rightarrow> if \<not> IsNotFound e then (Some (Wrap e ''delete replica set''), st') else (None, st')
         | None \<Rightarrow> (None, st'))"

text \<open>Reading a key of a Go map: the empty string when the key (or the map) is missing.\<close>

definition annotation :: "workload \<Rightarrow> string \<Rightarrow> string" where
  "annotation w k = (case annotationsOf w k of None \<Rightarrow> [] | Some v \<Rightarrow> v)"

definition callFindTargetByKindName :: "env \<Rightarrow> string \<Rightarrow> string \<Rightarrow> string \<Rightarrow> state \<Rightarrow> (err + workload) \<times> state" where
  "callFindTargetByKindName env k ns n st =
     (let r = findTargetByKindName env (trace st) k ns n
      in (r, logEvent (FindTargetByKindName k ns n) (errOf r) st))"

text \<open>The result is the pair \<^verbatim>\<open>(recreateNeeded, err)\<close> of the Go function.\<close>

definition updateNeeded :: "env \<Rightarrow> workload \<Rightarrow> devPod \<Rightarrow> state \<Rightarrow> (bool \<times> err option) \<times> state" where
  "updateNeeded env replicaSet devPod st =
     (if objAnnotations replicaSet = None \<or> annotation replicaSet TargetKindAnnotation = []
          \<or> annotation replicaSet TargetNameAnnotation = []
      then (case deleteReplicaSet env replicaSet st of (r, st') \<Rightarrow> ((True, r), st'))
      else
        case callFindTargetByKindName env (annotation replicaSet TargetKindAnnotation)
               (objNamespace replicaSet) (annotation replicaSet TargetNameAnnotation) st of
          (Inl e, st1) \<Rightarrow>
            if IsNotFound e
            then (case deleteReplicaSet env replicaSet st1 of (r, st') \<Rightarrow> ((True, r), st'))
            else ((False, Some e), st1)
        | (Inr target, st1) \<Rightarrow>
            (case buildReplicaSet env (objName replicaSet) target devPod of
               Inl e \<Rightarrow> ((False, Some e), st1)
             | Inr newReplicaSet \<Rightarrow>
                 (case hashConfig env devPod of
                    Inl e \<Rightarrow> ((False, Some (Wrap e ''hash config'')), st1)
                  | Inr configHash \<Rightarrow>
                      if semanticDeepEqual env (specTemplate newReplicaSet) (specTemplate replicaSet)
                         \<and> configHash = annotation replicaSet DevPodConfigHashAnnotation
                      then (case scaleDownTarget env target st1 of
                              (r, st2) \<Rightarrow> ((False, None), st2))
                      else
                        let originalReplicaSet = replicaSet;
                            replicaSet' = replicaSet
                              \<lparr>specTemplate := specTemplate newReplicaSet,
                               objAnnotations :=
                                 Some ((annotationsOf replicaSet)(DevPodConfigHashAnnotation \<mapsto> configHash))\<rparr>
                        in case patch_Data env originalReplicaSet replicaSet' of
                             Inl e \<Rightarrow> ((False, Some e), st1)
                           | Inr patchBytes \<Rightarrow>
                               (case doPatch env ReplicaSetT (objNamespace replicaSet')
                                       (objName replicaSet') patchBytes st1 of
                                  (r, st2) \<Rightarrow> ((False, r), st2)))))"

subsection \<open>createPVC\<close>

text \<open>\<^verbatim>\<open>resource.ParseQuantity\<close>; \<^verbatim>\<open>resource.MustParse\<close> is applied to a valid literal only.\<close>

definition ParseQuantity :: "env \<Rightarrow> string \<Rightarrow> err + quantity" where
  "ParseQuantity env s = (case quantityError env s of Some e \<Rightarrow> Inl e | None \<Rightarrow> Inr (Quantity s))"

definition MustParse :: "string \<Rightarrow> quantity" where
  "MustParse s = Quantity s"

definition ReadWriteOnce :: string where
  "ReadWriteOnce = ''ReadWriteOnce''"

text \<open>The claim that \<^verbatim>\<open>createPVC\<close> asks the cluster to create, when the size parses.\<close>

definition claimRequest :: "env \<Rightarrow> workload \<Rightarrow> devPod \<Rightarrow> err + persistentVolumeClaim" where
  "claimRequest env replicaSet devPod =
     (case (case dpPersistenceOptions devPod of
              None \<Rightarrow> Inr (MustParse ''10Gi'')
            | Some po \<Rightarrow>
                if poSize po \<noteq> []
                then (case ParseQuantity env (poSize po) of
                        Inl e \<Rightarrow> Inl (Errorf (''error parsing persistent volume size '' @ poSize po) (Some e))
                      | Inr q \<Rightarrow> Inr q)
                else Inr (MustParse ''10Gi'')) of
        Inl e \<Rightarrow> Inl e
      | Inr size' \<Rightarrow>
          let storageClassName =
                (case dpPersistenceOptions devPod of
                   None \<Rightarrow> None
                 | Some po \<Rightarrow> if poStorageClassName po \<noteq> [] then Some (poStorageClassName po) else None);
              accessModes =
                (case dpPersistenceOptions devPod of
                   None \<Rightarrow> [ReadWriteOnce]
                 | Some po \<Rightarrow> (case poAccessModes po of None \<Rightarrow> [ReadWriteOnce] | Some ms \<Rightarrow> ms));
              name =
                (case dpPersistenceOptions devPod of
                   None \<Rightarrow> objName replicaSet
                 | Some po \<Rightarrow> if poName po \<noteq> [] then poName po else objName replicaSet)
          in Inr \<lparr>pvcName = name,
                  pvcNamespace = objNamespace replicaSet,
                  pvcOwnerReferences =
                    [\<lparr>orAPIVersion = ''apps/v1'', orKind = ''ReplicaSet'',
                      orName = objName replicaSet, orUID = objUID replicaSet,
                      orController = Some True\<rparr>],
                  pvcAccessModes = accessModes,
                  pvcStorageRequest = size',
                  pvcStorageClassName = storageClassName\<rparr>)"

definition explicitClaimName :: "devPod \<Rightarrow> bool" where
  "explicitClaimName devPod =
     (case dpPersistenceOptions devPod of None \<Rightarrow> False | Some po \<Rightarrow> poName po \<noteq> [])"

definition createPVC :: "env \<Rightarrow> workload \<Rightarrow> devPod \<Rightarrow> state \<Rightarrow> err option \<times> state" where
  "createPVC env replicaSet devPod st =
     (case claimRequest env replicaSet devPod of
        Inl e \<Rightarrow> (Some e, st)
      | Inr claim \<Rightarrow>
          let r = createClaim env (trace st) claim;
              st' = logEvent (CreatePVC claim) r st
          in case r of
               Some e \<Rightarrow>
                 if IsAlreadyExists e \<and> explicitClaimName devPod then (None, st') else (Some e, st')
             | None \<Rightarrow> (None, st'))"

subsection \<open>replace\<close>

text \<open>
  Modelled from the spec: \<^verbatim>\<open>loader.EachDevContainer\<close> (not part of the sources) calls
  the function on every dev-container descriptor of the dev pod until it answers false.
  The Go closure writes a captured variable, which is the accumulator here.
\<close>

fun EachDevContainer :: "devContainer list \<Rightarrow> (devContainer \<Rightarrow> 'a \<Rightarrow> bool \<times> 'a) \<Rightarrow> 'a \<Rightarrow> 'a" where
  "EachDevContainer [] f a = a"
| "EachDevContainer (c # cs) f a =
     (case f c a of (continue, a') \<Rightarrow> if continue then EachDevContainer cs f a' else a')"

definition hasPersistPath :: "devPod \<Rightarrow> bool" where
  "hasPersistPath devPod =
     EachDevContainer (dpContainers devPod)
       (\<lambda>devContainer h. if length (PersistPaths devContainer) > 0 then (False, True) else (True, h))
       False"

text \<open>
  \<^verbatim>\<open>wait.Poll(interval, timeout, condition)\<close> of the Kubernetes client library, which is
  not part of the sources, after its documentation ("always waits the interval before
  the run of the condition", "the condition will always be invoked at least once") and on
  an ideal clock, where only waiting takes time: the poll waits one interval, runs the
  condition, and goes on until the condition answers done or fails; when the next wait
  would end after the timeout, it gives up with \<^verbatim>\<open>ErrWaitTimeout\<close>. Every wait adds
  the interval to the clock of the state.
\<close>

fun pollLoop :: "nat \<Rightarrow> int \<Rightarrow> (state \<Rightarrow> (bool \<times> err option) \<times> state) \<Rightarrow> state \<Rightarrow> err option \<times> state" where
  "pollLoop 0 interval condition st = (Some ErrWaitTimeout, st)"
| "pollLoop (Suc k) interval condition st =
     (case condition (st\<lparr>clock := clock st + interval\<rparr>) of
        ((done, Some e), st') \<Rightarrow> (Some e, st')
      | ((done, None), st') \<Rightarrow> if done then (None, st') else pollLoop k interval condition st')"

text \<open>The number of waits of one interval that end within the timeout, and at least one.\<close>

definition pollAttempts :: "int \<Rightarrow> int \<Rightarrow> nat" where
  "pollAttempts interval timeout = max 1 (nat (timeout div interval))"

definition wait_Poll :: "int \<Rightarrow> int \<Rightarrow> (state \<Rightarrow> (bool \<times> err option) \<times> state) \<Rightarrow> state \<Rightarrow> err option \<times> state" where
  "wait_Poll interval timeout condition st =
     pollLoop (pollAttempts interval timeout) interval condition st"

text \<open>The condition of the poll: the claim is gone when getting it answers not-found.\<close>

definition claimGone :: "env \<Rightarrow> string \<Rightarrow> string \<Rightarrow> state \<Rightarrow> (bool \<times> err option) \<times> state" where
  "claimGone env ns n st =
     (let r = getClaim env (trace st) ns n
      in (((case r of None \<Rightarrow> False | Some e \<Rightarrow> IsNotFound e), None), logEvent (GetPVC ns n) r st))"

definition callDeleteClaim :: "env \<Rightarrow> string \<Rightarrow> string \<Rightarrow> state \<Rightarrow> state" where
  "callDeleteClaim env ns n st = logEvent (DeletePVC ns n) (deleteClaim env (trace st) ns n) st"

definition callCreateReplicaSet :: "env \<Rightarrow> workload \<Rightarrow> state \<Rightarrow> (err + workload) \<times> state" where
  "callCreateReplicaSet env obj st =
     (let r = createReplicaSet env (trace st) obj
      in (r, logEvent (CreateReplicaSet obj) (errOf r) st))"

text \<open>Lines 202 to 237: the claim of a created replacement.\<close>

definition ensureClaim :: "env \<Rightarrow> workload \<Rightarrow> devPod \<Rightarrow> state \<Rightarrow> err option \<times> state" where
  "ensureClaim env replicaSet devPod st =
     (if hasPersistPath devPod then
        (case createPVC env replicaSet devPod st of
           (Some e, st1) \<Rightarrow>
             if IsAlreadyExists e then
               (let st2 = callDeleteClaim env (objNamespace replicaSet) (objName replicaSet) st1
                in case wait_Poll time_Second (time_Minute * 2)
                          (claimGone env (objNamespace replicaSet) (objName replicaSet)) st2 of
                     (Some e', st3) \<Rightarrow> (Some (Wrap e' ''waiting for pvc to terminate''), st3)
                   | (None, st3) \<Rightarrow>
                       (case createPVC env replicaSet devPod st3 of
                          (Some e', st4) \<Rightarrow> (Some (Wrap e' ''create persistent volume claim''), st4)
                        | (None, st4) \<Rightarrow> (None, st4)))
             else (Some (Wrap e ''create persistent volume claim''), st1)
         | (None, st1) \<Rightarrow> (None, st1))
      else (None, st))"

text \<open>
  \<open>retry\<close> is the call \<^verbatim>\<open>p.ReplacePod(ctx, devPod)\<close> of line 196. The result is
  \<open>None\<close> when that call does not return.
\<close>

definition replace :: "(state \<Rightarrow> (err option \<times> state) option) \<Rightarrow> env \<Rightarrow> string \<Rightarrow> workload \<Rightarrow> devPod \<Rightarrow> state \<Rightarrow> (err option \<times> state) option" where
  "replace retry env replicaSetName target devPod st =
     (case buildReplicaSet env replicaSetName target devPod of
        Inl e \<Rightarrow> Some (Some e, st)
      | Inr replicaSetObj \<Rightarrow>
          (case scaleDownTarget env target st of
             ((Some e, t), st1) \<Rightarrow> Some (Some (Wrap e ''scale down target''), st1)
           | ((None, t), st1) \<Rightarrow>
               (case callCreateReplicaSet env replicaSetObj st1 of
                  (Inl e, st2) \<Rightarrow>
                    if IsAlreadyExists e then retry st2
                    else Some (Some (Wrap e ''create replica set''), st2)
                | (Inr replicaSet, st2) \<Rightarrow> Some (ensureClaim env replicaSet devPod st2))))"

subsection \<open>ReplacePod\<close>

definition callGetReplicaSet :: "env \<Rightarrow> string \<Rightarrow> string \<Rightarrow> state \<Rightarrow> (err + workload) \<times> state" where
  "callGetReplicaSet env ns n st =
     (let r = getReplicaSet env (trace st) ns n
      in (r, logEvent (GetReplicaSet ns n) (errOf r) st))"

definition callFindTargetBySelector :: "env \<Rightarrow> devPod \<Rightarrow> state \<Rightarrow> (err + workload option) \<times> state" where
  "callFindTargetBySelector env devPod st =
     (let r = findTargetBySelector env (trace st) devPod
      in (r, logEvent (FindTargetBySelector devPod) (errOf r) st))"

text \<open>
  Modelled from the spec: the remote cache (package \<^verbatim>\<open>remotecache\<close> is not part of the
  sources). \<^verbatim>\<open>GetDevPod\<close> answers the entry and whether it was found, \<^verbatim>\<open>SetDevPod\<close>
  stores an entry in memory, \<^verbatim>\<open>Save\<close> persists the whole cache and can fail.
\<close>

definition GetDevPod :: "state \<Rightarrow> string \<Rightarrow> devPodCache \<times> bool" where
  "GetDevPod st n = (case cache st n of None \<Rightarrow> (zeroDevPodCache, False) | Some c \<Rightarrow> (c, True))"

definition SetDevPod :: "string \<Rightarrow> devPodCache \<Rightarrow> state \<Rightarrow> state" where
  "SetDevPod n c st = st\<lparr>cache := (cache st)(n \<mapsto> c)\<rparr>"

definition Save :: "env \<Rightarrow> state \<Rightarrow> err option \<times> state" where
  "Save env st =
     (let r = saveCache env (trace st) (cache st)
      in (r, logEvent (SaveCache (cache st)) r st))"

text \<open>Lines 87 to 113: the full replacement, reached when nothing could be updated.\<close>

definition recreate :: "(state \<Rightarrow> (err option \<times> state) option) \<Rightarrow> env \<Rightarrow> devPodCache \<Rightarrow> devPod \<Rightarrow> state \<Rightarrow> (err option \<times> state) option" where
  "recreate retry env devPodCache devPod st =
     (case callFindTargetBySelector env devPod st of
        (Inl e, st1) \<Rightarrow> Some (Some e, st1)
      | (Inr None, st1) \<Rightarrow>
          Some (Some (Errorf ''couldn't find a matching deployment, statefulset or replica set'' None), st1)
      | (Inr (Some target), st1) \<Rightarrow>
          (let devPodCache' = devPodCache
                 \<lparr>cTargetKind := objKind target,
                  cTargetName := objName target,
                  cReplicaSet := objName target @ ''-devspace''\<rparr>;
               st2 = SetDevPod (cName devPodCache') devPodCache' st1
           in case Save env st2 of
                (Some e, st3) \<Rightarrow> Some (Some e, st3)
              | (None, st3) \<Rightarrow> replace retry env (cReplicaSet devPodCache') target devPod st3))"

text \<open>Lines 50 to 59: the cache entry of the dev pod, or a fresh one.\<close>

definition lookupDevPod :: "env \<Rightarrow> devPod \<Rightarrow> state \<Rightarrow> devPodCache" where
  "lookupDevPod env devPod st =
     (let namespace = (if dpNamespace devPod = [] then clientNamespace env else dpNamespace devPod)
      in case GetDevPod st (dpName devPod) of
           (c, ok) \<Rightarrow> if \<not> ok then c\<lparr>cName := dpName devPod, cNamespace := namespace\<rparr> else c)"

text \<open>
  Lines 61 to 85: the look-up of an earlier replacement. \<open>Inl\<close> is a return of
  \<^verbatim>\<open>ReplacePod\<close>; \<open>Inr\<close> is the fall-through to line 87, with the cache entry.
\<close>

definition findReplaced :: "env \<Rightarrow> devPod \<Rightarrow> state \<Rightarrow> (err option \<times> state) + (devPodCache \<times> state)" where
  "findReplaced env devPod st =
     (let devPodCache = lookupDevPod env devPod st
      in if cReplicaSet devPodCache \<noteq> [] then
           (case callGetReplicaSet env (cNamespace devPodCache) (cName devPodCache) st of
              (Inl e, st1) \<Rightarrow>
                if \<not> IsNotFound e then Inl (Some (Wrap e ''find devspace replica set''), st1)
                else Inr (devPodCache, st1)
            | (Inr replicaSet, st1) \<Rightarrow>
                (case updateNeeded env replicaSet devPod st1 of
                   ((recreateNeeded, Some e), st2) \<Rightarrow> Inl (Some e, st2)
                 | ((recreateNeeded, None), st2) \<Rightarrow>
                     if \<not> recreateNeeded then Inl (None, st2)
                     else Inr (devPodCache, st2)))
         else Inr (devPodCache, st))"

text \<open>The body of \<^verbatim>\<open>ReplacePod\<close>, with \<open>retry\<close> as in \<open>replace\<close>.\<close>

definition ReplacePodBody :: "(state \<Rightarrow> (err option \<times> state) option) \<Rightarrow> env \<Rightarrow> devPod \<Rightarrow> state \<Rightarrow> (err option \<times> state) option" where
  "ReplacePodBody retry env devPod st =
     (case findReplaced env devPod st of
        Inl res \<Rightarrow> Some res
      | Inr (devPodCache, st1) \<Rightarrow> recreate retry env devPodCache devPod st1)"

text \<open>
  \<^verbatim>\<open>ReplacePod\<close> calls itself through \<^verbatim>\<open>replace\<close> and need not return. The first
  argument bounds the number of nested invocations; \<open>None\<close> says that the bound was
  not enough.
\<close>

fun ReplacePod :: "nat \<Rightarrow> env \<Rightarrow> devPod \<Rightarrow> state \<Rightarrow> (err option \<times> state) option" where
  "ReplacePod 0 env devPod st = None"
| "ReplacePod (Suc n) env devPod st = ReplacePodBody (ReplacePod n env devPod) env devPod st"

subsection \<open>Reading traces\<close>

datatype callKind =
    KGetReplicaSet | KCreateReplicaSet | KDeleteReplicaSet | KPatchObject | KCreatePVC
  | KDeletePVC | KGetPVC | KSaveCache | KFindTargetBySelector | KFindTargetByKindName

fun kindOf :: "call \<Rightarrow> callKind" where
  "kindOf (GetReplicaSet ns n) = KGetReplicaSet"
| "kindOf (CreateReplicaSet obj) = KCreateReplicaSet"
| "kindOf (DeleteReplicaSet ns n) = KDeleteReplicaSet"
| "kindOf (PatchObject res ns n p) = KPatchObject"
| "kindOf (CreatePVC claim) = KCreatePVC"
| "kindOf (DeletePVC ns n) = KDeletePVC"
| "kindOf (GetPVC ns n) = KGetPVC"
| "kindOf (SaveCache c) = KSaveCache"
| "kindOf (FindTargetBySelector devPod) = KFindTargetBySelector"
| "kindOf (FindTargetByKindName k ns n) = KFindTargetByKindName"

fun callOf :: "event \<Rightarrow> call" where
  "callOf (Event c r) = c"

fun failureOf :: "event \<Rightarrow> err option" where
  "failureOf (Event c r) = r"

definition kindsOf :: "event list \<Rightarrow> callKind list" where
  "kindsOf evs = map (\<lambda>ev. kindOf (callOf ev)) evs"

text \<open>What a run returned, and the kinds of the calls it made, in order.\<close>

definition returned :: "(err option \<times> state) option \<Rightarrow> err option option" where
  "returned res = map_option fst res"

definition callsMade :: "(err option \<times> state) option \<Rightarrow> callKind list" where
  "callsMade res = (case res of None \<Rightarrow> [] | Some (r, st) \<Rightarrow> kindsOf (trace st))"

text \<open>The calls of a run with their failures, in order.\<close>

definition outcomes :: "(err option \<times> state) option \<Rightarrow> (callKind \<times> err option) list" where
  "outcomes res =
     (case res of None \<Rightarrow> []
      | Some (r, st) \<Rightarrow> map (\<lambda>ev. (kindOf (callOf ev), failureOf ev)) (trace st))"

text \<open>How long a run waited, on the clock of its last state.\<close>

definition waited :: "(err option \<times> state) option \<Rightarrow> int" where
  "waited res = (case res of None \<Rightarrow> 0 | Some (r, st) \<Rightarrow> clock st)"

text \<open>
  The cache entry that lines 96 to 98 write, and the state in which line 107 calls
  \<open>replace\<close>: the target was resolved from state \<open>st\<close>, and the cache with the new
  entry was saved.
\<close>

definition replacedEntry :: "devPodCache \<Rightarrow> workload \<Rightarrow> devPodCache" where
  "replacedEntry devPodCache target =
     devPodCache\<lparr>cTargetKind := objKind target, cTargetName := objName target,
                 cReplicaSet := objName target @ ''-devspace''\<rparr>"

definition replaceStart :: "devPodCache \<Rightarrow> devPod \<Rightarrow> workload \<Rightarrow> state \<Rightarrow> state" where
  "replaceStart devPodCache devPod target st =
     (let cache' = (cache st)(cName devPodCache \<mapsto> replacedEntry devPodCache target)
      in st\<lparr>cache := cache',
            trace := trace st @ [Event (FindTargetBySelector devPod) None,
                                 Event (SaveCache cache') None]\<rparr>)"

text \<open>The object that a scale-down leaves in memory when the count was not zero.\<close>

definition scaledDown :: "workload \<Rightarrow> workload" where
  "scaledDown obj =
     obj\<lparr>objAnnotations := Some ((annotationsOf obj)(ReplicasAnnotation \<mapsto> Itoa (replicaCount obj))),
         specReplicas := Some 0\<rparr>"

text \<open>The test of line 117, negated: both target annotations are there and not empty.\<close>

definition annotationsComplete :: "workload \<Rightarrow> bool" where
  "annotationsComplete replicaSet =
     (objAnnotations replicaSet \<noteq> None \<and> annotation replicaSet TargetKindAnnotation \<noteq> []
      \<and> annotation replicaSet TargetNameAnnotation \<noteq> [])"

text \<open>The replacement as \<open>updateNeeded\<close> rewrites it before it computes the patch.\<close>

definition patchedReplicaSet :: "workload \<Rightarrow> workload \<Rightarrow> string \<Rightarrow> workload" where
  "patchedReplicaSet replicaSet newReplicaSet configHash =
     replicaSet\<lparr>specTemplate := specTemplate newReplicaSet,
                objAnnotations :=
                  Some ((annotationsOf replicaSet)(DevPodConfigHashAnnotation \<mapsto> configHash))\<rparr>"

text \<open>The owner reference that \<open>createPVC\<close> writes: the replacement, as controller.\<close>

definition controllerReference :: "workload \<Rightarrow> ownerReference" where
  "controllerReference replicaSet =
     \<lparr>orAPIVersion = ''apps/v1'', orKind = ''ReplicaSet'', orName = objName replicaSet,
      orUID = objUID replicaSet, orController = Some True\<rparr>"

text \<open>
  The order in which one invocation of \<^verbatim>\<open>ReplacePod\<close> can make its calls: what
  \<open>ensureClaim\<close> does, what \<open>replace\<close> does before it, and what the body does
  before that. The update decision's own patch takes the place of the scale-down patch.
\<close>

definition claimOrder :: "callKind list" where
  "claimOrder = [KCreatePVC, KDeletePVC] @ replicate 120 KGetPVC @ [KCreatePVC]"

definition replaceOrder :: "callKind list" where
  "replaceOrder = [KPatchObject, KCreateReplicaSet] @ claimOrder"

definition callOrder :: "callKind list" where
  "callOrder =
     [KGetReplicaSet, KFindTargetByKindName, KDeleteReplicaSet, KFindTargetBySelector, KSaveCache]
     @ replaceOrder"

text \<open>How often the creation of a replacement was attempted so far.\<close>

definition creations :: "state \<Rightarrow> nat" where
  "creations st = count_list (kindsOf (trace st)) KCreateReplicaSet"

text \<open>The patch calls of a trace: resource, namespace, name and patch.\<close>

fun patchCalls :: "event list \<Rightarrow> (objType \<times> string \<times> string \<times> mergePatch) list" where
  "patchCalls [] = []"
| "patchCalls (Event (PatchObject res ns n p) r # evs) = (res, ns, n, p) # patchCalls evs"
| "patchCalls (ev # evs) = patchCalls evs"

subsection \<open>Example inputs\<close>

text \<open>
  The scenario of the specification: dev pod \<open>api\<close> in namespace \<open>dev\<close>, whose selector
  matches the deployment \<open>api-deploy\<close> with three replicas.
\<close>

definition exDeployment :: workload where
  "exDeployment =
     \<lparr>goType = DeploymentT, objKind = ''Deployment'', objNamespace = ''dev'',
      objName = ''api-deploy'', objUID = ''uid-deploy'', objAnnotations = None,
      specReplicas = Some 3, specTemplate = PodTemplate ''api:1.0''\<rparr>"

definition exScaledDeployment :: workload where
  "exScaledDeployment =
     exDeployment\<lparr>objAnnotations := Some [ReplicasAnnotation \<mapsto> ''3''], specReplicas := Some 0\<rparr>"

definition exDevPod :: devPod where
  "exDevPod =
     \<lparr>dpName = ''api'', dpNamespace = ''dev'', dpConfig = ''sync-v1'', dpContainers = [],
      dpPersistenceOptions = None\<rparr>"

definition exBuild :: "string \<Rightarrow> workload \<Rightarrow> devPod \<Rightarrow> workload" where
  "exBuild n target devPod =
     \<lparr>goType = ReplicaSetT, objKind = ''ReplicaSet'', objNamespace = objNamespace target,
      objName = n, objUID = [],
      objAnnotations = Some [TargetKindAnnotation \<mapsto> objKind target,
                             TargetNameAnnotation \<mapsto> objName target,
                             DevPodConfigHashAnnotation \<mapsto> dpConfig devPod],
      specReplicas = Some 1, specTemplate = PodTemplate (dpConfig devPod)\<rparr>"

text \<open>A cluster without a replacement, in which every call succeeds.\<close>

definition exEnv :: env where
  "exEnv =
     \<lparr>clientNamespace = ''default'',
      getReplicaSet = (\<lambda>tr ns n. Inl NotFound),
      createReplicaSet = (\<lambda>tr obj. Inr obj),
      deleteReplicaSetCall = (\<lambda>tr ns n. None),
      patchObject = (\<lambda>tr res ns n p. None),
      createClaim = (\<lambda>tr claim. None),
      deleteClaim = (\<lambda>tr ns n. None),
      getClaim = (\<lambda>tr ns n. Some NotFound),
      saveCache = (\<lambda>tr c. None),
      findTargetBySelector = (\<lambda>tr devPod. Inr (Some exDeployment)),
      findTargetByKindName = (\<lambda>tr k ns n. Inr exDeployment),
      buildReplicaSet = (\<lambda>n target devPod. Inr (exBuild n target devPod)),
      hashConfig = (\<lambda>devPod. Inr (dpConfig devPod)),
      semanticDeepEqual = (\<lambda>a b. a = b),
      quantityError = (\<lambda>s. None),
      marshalError = (\<lambda>w. None)\<rparr>"

text \<open>The replacement of the deployment, as the cluster stores it.\<close>

definition exReplacement :: workload where
  "exReplacement = (exBuild ''api-deploy-devspace'' exDeployment exDevPod)\<lparr>objUID := ''uid-rs''\<rparr>"

text \<open>A replacement whose annotations were stripped, and one whose target is unknown.\<close>

definition exUnmanaged :: workload where
  "exUnmanaged = exReplacement\<lparr>objAnnotations := None\<rparr>"

text \<open>The dev pod with a persisted path, and with an explicit claim name on top.\<close>

definition exDevPodPersist :: devPod where
  "exDevPodPersist = exDevPod\<lparr>dpContainers := [\<lparr>PersistPaths = [''/data'']\<rparr>]\<rparr>"

definition exDevPodNamed :: devPod where
  "exDevPodNamed =
     exDevPodPersist\<lparr>dpPersistenceOptions :=
       Some \<lparr>poSize = [], poStorageClassName = [], poAccessModes = None, poName = ''data''\<rparr>\<rparr>"

text \<open>The dev pod after its configuration was edited.\<close>

definition exDevPodEdited :: devPod where
  "exDevPodEdited = exDevPod\<lparr>dpConfig := ''sync-v2''\<rparr>"

text \<open>Clusters in which one kind of call fails.\<close>

definition exEnvClaimExists :: env where
  "exEnvClaimExists = exEnv\<lparr>createClaim := (\<lambda>tr claim. Some AlreadyExists)\<rparr>"

definition exEnvPatchFails :: env where
  "exEnvPatchFails = exEnv\<lparr>patchObject := (\<lambda>tr res ns n p. Some (ApiError ''patch refused''))\<rparr>"

definition exEnvTargetGone :: env where
  "exEnvTargetGone =
     exEnv\<lparr>findTargetByKindName := (\<lambda>tr k ns n. Inl NotFound),
           deleteReplicaSetCall := (\<lambda>tr ns n. Some NotFound)\<rparr>"

definition exEnvTargetError :: env where
  "exEnvTargetError = exEnv\<lparr>findTargetByKindName := (\<lambda>tr k ns n. Inl (ApiError ''timeout''))\<rparr>"

text \<open>
  A dev pod that carries the name of its replacement, already replaced: the cache knows
  the replacement and the cluster has it. Patches are refused in \<open>exEnvReplaced\<close>.
\<close>

definition exDevPodSameName :: devPod where
  "exDevPodSameName = exDevPod\<lparr>dpName := ''api-deploy-devspace''\<rparr>"

definition exCacheEntry :: devPodCache where
  "exCacheEntry =
     \<lparr>cName = ''api-deploy-devspace'', cNamespace = ''dev'', cTargetKind = ''Deployment'',
      cTargetName = ''api-deploy'', cReplicaSet = ''api-deploy-devspace''\<rparr>"

definition exStateReplaced :: state where
  "exStateReplaced =
     \<lparr>trace = [], cache = [''api-deploy-devspace'' \<mapsto> exCacheEntry], clock = 0\<rparr>"

definition exGet :: "event list \<Rightarrow> string \<Rightarrow> string \<Rightarrow> err + workload" where
  "exGet tr ns n =
     (if ns = ''dev'' \<and> n = ''api-deploy-devspace'' then Inr exReplacement else Inl NotFound)"

definition exEnvReplaced :: env where
  "exEnvReplaced = exEnvPatchFails\<lparr>getReplicaSet := exGet\<rparr>"

text \<open>
  A stale claim of an earlier replacement: creating the claim conflicts until the old one
  is gone. In \<open>exEnvClaimStale\<close> it goes at once, in \<open>exEnvClaimStuck\<close> never.
\<close>

definition exEnvClaimStale :: env where
  "exEnvClaimStale =
     exEnv\<lparr>createClaim :=
             (\<lambda>tr claim. if KDeletePVC \<in> set (kindsOf tr) then None else Some AlreadyExists)\<rparr>"

definition exEnvClaimStuck :: env where
  "exEnvClaimStuck = exEnvClaimExists\<lparr>getClaim := (\<lambda>tr ns n. None)\<rparr>"

text \<open>
  The cluster of \<open>exEnvReplaced\<close> after the annotations of the replacement were
  stripped, with a remote cache that cannot be written.
\<close>

definition exGetUnmanaged :: "event list \<Rightarrow> string \<Rightarrow> string \<Rightarrow> err + workload" where
  "exGetUnmanaged tr ns n =
     (if ns = ''dev'' \<and> n = ''api-deploy-devspace'' then Inr exUnmanaged else Inl NotFound)"

definition exEnvSaveFails :: env where
  "exEnvSaveFails =
     exEnv\<lparr>getReplicaSet := exGetUnmanaged,
           saveCache := (\<lambda>tr c. Some (ApiError ''cache not writable''))\<rparr>"

text \<open>
  A cluster in which the name of the replacement is taken, so that creating it
  conflicts, and whose remote cache cannot be written any more once a creation was
  attempted.
\<close>

definition exEnvSaveFailsOnRetry :: env where
  "exEnvSaveFailsOnRetry =
     exEnv\<lparr>createReplicaSet := (\<lambda>tr obj. Inl AlreadyExists),
           saveCache := (\<lambda>tr c. if KCreateReplicaSet \<in> set (kindsOf tr)
                                 then Some (ApiError ''cache not writable'') else None)\<rparr>"

text \<open>
  A cluster in which the deployment is already scaled down and the name of the
  replacement is taken: the first \<open>k\<close> attempts to create the replacement conflict,
  and the fetch of line 67 finds nothing.
\<close>

definition exEnvConflicts :: "nat \<Rightarrow> env" where
  "exEnvConflicts k =
     exEnv\<lparr>findTargetBySelector := (\<lambda>tr devPod. Inr (Some exScaledDeployment)),
           createReplicaSet :=
             (\<lambda>tr obj. if count_list (kindsOf tr) KCreateReplicaSet < k
                       then Inl AlreadyExists else Inr obj)\<rparr>"

text \<open>
  The scenario of the specification after a successful replacement: the deployment is
  scaled down, the replacement \<open>api-deploy-devspace\<close> exists (so its name is taken),
  and the cache entry of dev pod \<open>api\<close> names it.
\<close>

definition exCacheEntryApi :: devPodCache where
  "exCacheEntryApi =
     \<lparr>cName = ''api'', cNamespace = ''dev'', cTargetKind = ''Deployment'',
      cTargetName = ''api-deploy'', cReplicaSet = ''api-deploy-devspace''\<rparr>"

definition exStateApi :: state where
  "exStateApi = \<lparr>trace = [], cache = [''api'' \<mapsto> exCacheEntryApi], clock = 0\<rparr>"

definition exCreate :: "event list \<Rightarrow> workload \<Rightarrow> err + workload" where
  "exCreate tr obj =
     (if objNamespace obj = ''dev'' \<and> objName obj = ''api-deploy-devspace''
      then Inl AlreadyExists else Inr obj)"

definition exEnvStatic :: env where
  "exEnvStatic =
     exEnv\<lparr>getReplicaSet := exGet,
           createReplicaSet := exCreate,
           findTargetBySelector := (\<lambda>tr devPod. Inr (Some exScaledDeployment)),
           findTargetByKindName := (\<lambda>tr k ns n. Inr exScaledDeployment)\<rparr>"

definition exState :: state where
  "exState = \<lparr>trace = [], cache = Map.empty, clock = 0\<rparr>"

section \<open>Properties\<close>

subsection \<open>Decimal strings\<close>

lemma below_ten: "d < 10 \<Longrightarrow> d \<in> {0, 1, 2, 3, 4, 5, 6, 7, 8, 9::nat}"
  by auto

lemma digitValue_digitChar: "d < 10 \<Longrightarrow> digitValue (digitChar d) = d"
  by (drule below_ten) (auto simp add: digitValue_def digitChar_def)

lemma decimalValue_snoc: "decimalValue (s @ [c]) = 10 * decimalValue s + digitValue c"
  by (simp add: decimalValue_def)

lemma decimalValue_digitsOf: "decimalValue (digitsOf n) = n"
proof (induction n rule: digitsOf.induct)
  case (1 n)
  show ?case
  proof (cases "n < 10")
    case True
    then show ?thesis
      by (simp add: digitsOf.simps [of n] decimalValue_def digitValue_digitChar)
  next
    case False
    with 1 show ?thesis
      by (simp add: digitsOf.simps [of n] decimalValue_snoc digitValue_digitChar)
  qed
qed

lemma decimalValue_zero: "decimalValue ''0'' = 0"
  by (simp add: decimalValue_def digitValue_def)

lemma digitsOf_not_zero: "n \<noteq> 0 \<Longrightarrow> digitsOf n \<noteq> ''0''"
  using decimalValue_digitsOf [of n] decimalValue_zero by auto

lemma Itoa_not_zero: "i \<noteq> 0 \<Longrightarrow> Itoa i \<noteq> ''0''"
  by (auto simp add: Itoa_def digitsOf_not_zero)

lemma Itoa_decimal: "0 \<le> i \<Longrightarrow> decimalValue (Itoa i) = nat i"
  by (simp add: Itoa_def decimalValue_digitsOf)

subsection \<open>Scale-down\<close>

lemma annotationsOf_Some [simp]: "annotationsOf (w\<lparr>objAnnotations := Some m\<rparr>) = m"
  by (simp add: annotationsOf_def)

lemma replicaCount_annotations [simp]: "replicaCount (w\<lparr>objAnnotations := a\<rparr>) = replicaCount w"
  by (simp add: replicaCount_def)

lemma scaleDownCase_zero:
  "replicaCount obj = 0 \<Longrightarrow>
   scaleDownCase env res cloned obj st = ((None, obj\<lparr>objAnnotations := Some (annotationsOf obj)\<rparr>), st)"
  by (simp add: scaleDownCase_def Let_def)

lemma scaleDownCase_nonzero:
  "replicaCount obj \<noteq> 0 \<Longrightarrow>
   scaleDownCase env res cloned obj st =
     (case marshalError env (scaledDown obj) of
        Some e \<Rightarrow> ((Some e, scaledDown obj), st)
      | None \<Rightarrow>
          ((patchObject env (trace st) res (objNamespace obj) (objName obj) (MergeFrom cloned (scaledDown obj)),
            scaledDown obj),
           logEvent (PatchObject res (objNamespace obj) (objName obj) (MergeFrom cloned (scaledDown obj)))
             (patchObject env (trace st) res (objNamespace obj) (objName obj) (MergeFrom cloned (scaledDown obj))) st))"
  by (simp add: scaleDownCase_def Let_def scaledDown_def patch_Data_def doPatch_def
      split: option.splits)

lemma scaleDownTarget_case:
  "goType obj \<noteq> OtherT \<Longrightarrow> scaleDownTarget env obj st = scaleDownCase env (goType obj) obj obj st"
  by (cases "goType obj") (simp_all add: scaleDownTarget_def)

lemma scaleDownTarget_other:
  "goType obj = OtherT \<Longrightarrow>
   scaleDownTarget env obj st = ((Some (Errorf ''unrecognized object'' None), obj), st)"
  by (simp add: scaleDownTarget_def)

lemma MergeFrom_scaledDown:
  "replicaCount obj \<noteq> 0 \<Longrightarrow>
   patchReplicas (MergeFrom obj (scaledDown obj)) = Some (Some 0)
   \<and> patchTemplate (MergeFrom obj (scaledDown obj)) = None
   \<and> patchKind (MergeFrom obj (scaledDown obj)) = None
   \<and> patchNamespace (MergeFrom obj (scaledDown obj)) = None
   \<and> patchName (MergeFrom obj (scaledDown obj)) = None
   \<and> patchUID (MergeFrom obj (scaledDown obj)) = None
   \<and> (\<forall>k. k \<noteq> ReplicasAnnotation \<longrightarrow> patchAnnotations (MergeFrom obj (scaledDown obj)) k = None)"
  by (auto simp add: MergeFrom_def scaledDown_def changed_def replicaCount_def annotationsOf_def
      split: option.splits)

text \<open>
  C5. For a deployment, a stateful set or a replica set whose replica count (1 when
  unset) is 0, \<open>scaleDownTarget\<close> succeeds, makes no call and leaves the annotations and
  the count of the object as they were. For any other count it stores the count in the
  replicas annotation as a decimal string, which is never \<open>0\<close>, sets the replicas to
  0 and, unless encoding the patch fails, makes exactly one call: a merge patch of the
  target that carries the replicas and that annotation and nothing else.
\<close>

theorem scaleDownTarget_idempotent:
  assumes "goType obj \<noteq> OtherT"
  shows "case scaleDownTarget env obj st of
           ((r, t), st') \<Rightarrow>
             if replicaCount obj = 0
             then r = None \<and> st' = st \<and> annotationsOf t = annotationsOf obj
                  \<and> specReplicas t = specReplicas obj
             else annotationsOf t = (annotationsOf obj)(ReplicasAnnotation \<mapsto> Itoa (replicaCount obj))
                  \<and> Itoa (replicaCount obj) \<noteq> ''0''
                  \<and> (0 < replicaCount obj \<longrightarrow> decimalValue (Itoa (replicaCount obj)) = nat (replicaCount obj))
                  \<and> specReplicas t = Some 0
                  \<and> patchReplicas (MergeFrom obj t) = Some (Some 0)
                  \<and> patchTemplate (MergeFrom obj t) = None
                  \<and> (\<forall>k. k \<noteq> ReplicasAnnotation \<longrightarrow> patchAnnotations (MergeFrom obj t) k = None)
                  \<and> (case marshalError env t of
                        Some e \<Rightarrow> r = Some e \<and> st' = st
                      | None \<Rightarrow>
                          r = patchObject env (trace st) (goType obj) (objNamespace obj) (objName obj) (MergeFrom obj t)
                          \<and> st' = st\<lparr>trace := trace st @
                                [Event (PatchObject (goType obj) (objNamespace obj) (objName obj) (MergeFrom obj t)) r]\<rparr>)"
proof (cases "replicaCount obj = 0")
  case True
  with assms show ?thesis
    by (simp add: scaleDownTarget_case scaleDownCase_zero)
next
  case False
  have t: "annotationsOf (scaledDown obj) = (annotationsOf obj)(ReplicasAnnotation \<mapsto> Itoa (replicaCount obj))"
    "specReplicas (scaledDown obj) = Some 0"
    by (simp_all add: scaledDown_def annotationsOf_def)
  from False assms show ?thesis
    using MergeFrom_scaledDown [OF False]
    by (simp add: scaleDownTarget_case scaleDownCase_nonzero t Itoa_not_zero
        Itoa_decimal logEvent_def split: option.splits)
qed

theorem scaleDownTarget_idempotent_witness:
  "goType exScaledDeployment \<noteq> OtherT \<and> goType exDeployment \<noteq> OtherT
   \<and> replicaCount exScaledDeployment = 0 \<and> replicaCount exDeployment = 3
   \<and> scaleDownTarget exEnv exScaledDeployment exState = ((None, exScaledDeployment), exState)
   \<and> fst (fst (scaleDownTarget exEnv exDeployment exState)) = None
   \<and> annotation (snd (fst (scaleDownTarget exEnv exDeployment exState))) ReplicasAnnotation = ''3''
   \<and> specReplicas (snd (fst (scaleDownTarget exEnv exDeployment exState))) = Some 0
   \<and> kindsOf (trace (snd (scaleDownTarget exEnv exDeployment exState))) = [KPatchObject]"
  using scaleDownTarget_idempotent [where obj = exScaledDeployment and env = exEnv and st = exState]
    scaleDownTarget_idempotent [where obj = exDeployment and env = exEnv and st = exState]
  by (simp add: scaleDownTarget_def scaleDownCase_def exScaledDeployment_def exDeployment_def
      replicaCount_def annotationsOf_def exEnv_def exState_def patch_Data_def doPatch_def
      logEvent_def kindsOf_def annotation_def Let_def Itoa_def digitsOf.simps digitChar_def)

subsection \<open>The persistent volume claim\<close>

lemma claimRequest_owner:
  "claimRequest env replicaSet devPod = Inr claim \<Longrightarrow>
   pvcOwnerReferences claim = [controllerReference replicaSet]"
  by (auto simp add: claimRequest_def controllerReference_def Let_def split: option.splits sum.splits if_splits)

lemma claimRequest_default:
  "dpPersistenceOptions devPod = None \<Longrightarrow>
   claimRequest env replicaSet devPod =
     Inr \<lparr>pvcName = objName replicaSet, pvcNamespace = objNamespace replicaSet,
          pvcOwnerReferences = [controllerReference replicaSet],
          pvcAccessModes = [ReadWriteOnce], pvcStorageRequest = Quantity ''10Gi'',
          pvcStorageClassName = None\<rparr>"
  by (simp add: claimRequest_def controllerReference_def MustParse_def)

lemma createPVC_request:
  "claimRequest env replicaSet devPod = Inr claim \<Longrightarrow>
   createPVC env replicaSet devPod st =
     ((case createClaim env (trace st) claim of
         None \<Rightarrow> None
       | Some e \<Rightarrow> if IsAlreadyExists e \<and> explicitClaimName devPod then None else Some e),
      logEvent (CreatePVC claim) (createClaim env (trace st) claim) st)"
  by (simp add: createPVC_def Let_def split: option.splits)

text \<open>
  C7. For a dev pod without persistence options, the one call of \<open>createPVC\<close> asks
  for a claim of exactly 10Gi, with the single access mode ReadWriteOnce, no storage
  class and the name of the replacement replica set, and \<open>createPVC\<close> returns what
  the cluster answers.
\<close>

theorem createPVC_defaults:
  assumes "dpPersistenceOptions devPod = None"
  shows "\<exists>claim.
           pvcStorageRequest claim = Quantity ''10Gi''
           \<and> pvcAccessModes claim = [''ReadWriteOnce'']
           \<and> pvcStorageClassName claim = None
           \<and> pvcName claim = objName replicaSet
           \<and> createPVC env replicaSet devPod st =
               (createClaim env (trace st) claim,
                st\<lparr>trace := trace st @ [Event (CreatePVC claim) (createClaim env (trace st) claim)]\<rparr>)"
proof -
  let ?claim = "\<lparr>pvcName = objName replicaSet, pvcNamespace = objNamespace replicaSet,
          pvcOwnerReferences = [controllerReference replicaSet],
          pvcAccessModes = [ReadWriteOnce], pvcStorageRequest = Quantity ''10Gi'',
          pvcStorageClassName = None\<rparr>"
  have "\<not> explicitClaimName devPod"
    using assms by (simp add: explicitClaimName_def)
  then have "createPVC env replicaSet devPod st =
               (createClaim env (trace st) ?claim,
                st\<lparr>trace := trace st @ [Event (CreatePVC ?claim) (createClaim env (trace st) ?claim)]\<rparr>)"
    using createPVC_request [OF claimRequest_default [OF assms]]
    by (simp add: logEvent_def split: option.splits)
  then show ?thesis
    by (intro exI [of _ ?claim]) (simp add: ReadWriteOnce_def)
qed

theorem createPVC_defaults_witness:
  "dpPersistenceOptions exDevPodPersist = None \<and> hasPersistPath exDevPodPersist
   \<and> createPVC exEnv exReplacement exDevPodPersist exState =
       (None,
        \<lparr>trace = [Event (CreatePVC
           \<lparr>pvcName = ''api-deploy-devspace'', pvcNamespace = ''dev'',
            pvcOwnerReferences = [controllerReference exReplacement],
            pvcAccessModes = [''ReadWriteOnce''], pvcStorageRequest = Quantity ''10Gi'',
            pvcStorageClassName = None\<rparr>) None],
         cache = Map.empty, clock = 0\<rparr>)"
  using createPVC_defaults [where devPod = exDevPodPersist and env = exEnv
      and replicaSet = exReplacement and st = exState]
  by (simp add: exDevPodPersist_def exDevPod_def hasPersistPath_def createPVC_def claimRequest_def
      exEnv_def exState_def exReplacement_def exBuild_def exDeployment_def logEvent_def
      MustParse_def ReadWriteOnce_def controllerReference_def Let_def)

text \<open>
  C6, as stated, fails: with the explicit claim name \<open>data\<close> the claim that
  \<open>createPVC\<close> asks for still carries the controller reference to the replacement.
\<close>

theorem createPVC_owner_counterexample:
  "explicitClaimName exDevPodNamed
   \<and> createPVC exEnv exReplacement exDevPodNamed exState =
       (None,
        \<lparr>trace = [Event (CreatePVC
           \<lparr>pvcName = ''data'', pvcNamespace = ''dev'',
            pvcOwnerReferences =
              [\<lparr>orAPIVersion = ''apps/v1'', orKind = ''ReplicaSet'',
                orName = ''api-deploy-devspace'', orUID = ''uid-rs'', orController = Some True\<rparr>],
            pvcAccessModes = [''ReadWriteOnce''], pvcStorageRequest = Quantity ''10Gi'',
            pvcStorageClassName = None\<rparr>) None],
         cache = Map.empty, clock = 0\<rparr>)"
  by (simp add: exDevPodNamed_def exDevPodPersist_def exDevPod_def explicitClaimName_def createPVC_def claimRequest_def
      exEnv_def exState_def exReplacement_def exBuild_def exDeployment_def logEvent_def
      MustParse_def ReadWriteOnce_def Let_def)

text \<open>
  C6, amended. Whenever the size parses, \<open>createPVC\<close> makes one call, and the claim
  in it carries exactly one owner reference: the replacement replica set, as controller,
  whether or not an explicit claim name was supplied. An already-exists answer is turned
  into success exactly when an explicit claim name was supplied; every other answer is
  returned as it is.
\<close>

theorem createPVC_owner_always:
  "case claimRequest env replicaSet devPod of
     Inl e \<Rightarrow> createPVC env replicaSet devPod st = (Some e, st)
   | Inr claim \<Rightarrow>
       pvcOwnerReferences claim = [controllerReference replicaSet]
       \<and> trace (snd (createPVC env replicaSet devPod st)) =
           trace st @ [Event (CreatePVC claim) (createClaim env (trace st) claim)]
       \<and> (case createClaim env (trace st) claim of
             None \<Rightarrow> fst (createPVC env replicaSet devPod st) = None
           | Some e \<Rightarrow>
               fst (createPVC env replicaSet devPod st) =
                 (if IsAlreadyExists e \<and> explicitClaimName devPod then None else Some e))"
proof (cases "claimRequest env replicaSet devPod")
  case (Inl e)
  then show ?thesis by (simp add: createPVC_def)
next
  case (Inr claim)
  then show ?thesis
    using claimRequest_owner [OF Inr] createPVC_request [OF Inr, of st]
    by (simp add: logEvent_def split: option.splits)
qed

theorem createPVC_owner_always_witness:
  "explicitClaimName exDevPodNamed
   \<and> fst (createPVC exEnvClaimExists exReplacement exDevPodNamed exState) = None
   \<and> \<not> explicitClaimName exDevPodPersist
   \<and> fst (createPVC exEnvClaimExists exReplacement exDevPodPersist exState) = Some AlreadyExists"
  using createPVC_owner_always [where devPod = exDevPodNamed and env = exEnvClaimExists
      and replicaSet = exReplacement and st = exState]
   createPVC_owner_always [where devPod = exDevPodPersist and env = exEnvClaimExists
      and replicaSet = exReplacement and st = exState]
  by (simp add: exDevPodNamed_def exDevPodPersist_def exDevPod_def explicitClaimName_def createPVC_def claimRequest_def
      exEnv_def exEnvClaimExists_def exState_def exReplacement_def exBuild_def exDeployment_def logEvent_def
      MustParse_def ReadWriteOnce_def Let_def)

subsection \<open>The update decision\<close>

lemma deleteReplicaSet_eq:
  "deleteReplicaSet env replicaSet st =
     ((case deleteReplicaSetCall env (trace st) (objNamespace replicaSet) (objName replicaSet) of
         None \<Rightarrow> None
       | Some e \<Rightarrow> if IsNotFound e then None else Some (Wrap e ''delete replica set'')),
      logEvent (DeleteReplicaSet (objNamespace replicaSet) (objName replicaSet))
        (deleteReplicaSetCall env (trace st) (objNamespace replicaSet) (objName replicaSet)) st)"
  by (simp add: deleteReplicaSet_def Let_def split: option.splits)

lemma updateNeeded_incomplete:
  "\<not> annotationsComplete replicaSet \<Longrightarrow>
   updateNeeded env replicaSet devPod st =
     ((True, fst (deleteReplicaSet env replicaSet st)), snd (deleteReplicaSet env replicaSet st))"
  by (auto simp add: updateNeeded_def annotationsComplete_def split: prod.splits)

lemma updateNeeded_target_error:
  assumes "annotationsComplete replicaSet"
    and "findTargetByKindName env (trace st) (annotation replicaSet TargetKindAnnotation)
           (objNamespace replicaSet) (annotation replicaSet TargetNameAnnotation) = Inl e"
  shows "updateNeeded env replicaSet devPod st =
     (let st1 = logEvent (FindTargetByKindName (annotation replicaSet TargetKindAnnotation)
                  (objNamespace replicaSet) (annotation replicaSet TargetNameAnnotation)) (Some e) st
      in if IsNotFound e
         then ((True, fst (deleteReplicaSet env replicaSet st1)), snd (deleteReplicaSet env replicaSet st1))
         else ((False, Some e), st1))"
  using assms
  by (auto simp add: updateNeeded_def annotationsComplete_def callFindTargetByKindName_def errOf_def
      Let_def split: prod.splits)

lemma updateNeeded_resolved:
  assumes "annotationsComplete replicaSet"
    and "findTargetByKindName env (trace st) (annotation replicaSet TargetKindAnnotation)
           (objNamespace replicaSet) (annotation replicaSet TargetNameAnnotation) = Inr target"
    and "buildReplicaSet env (objName replicaSet) target devPod = Inr newReplicaSet"
    and "hashConfig env devPod = Inr configHash"
  shows "updateNeeded env replicaSet devPod st =
     (let st1 = logEvent (FindTargetByKindName (annotation replicaSet TargetKindAnnotation)
                  (objNamespace replicaSet) (annotation replicaSet TargetNameAnnotation)) None st;
          replicaSet' = patchedReplicaSet replicaSet newReplicaSet configHash;
          p = MergeFrom replicaSet replicaSet'
      in if semanticDeepEqual env (specTemplate newReplicaSet) (specTemplate replicaSet)
            \<and> configHash = annotation replicaSet DevPodConfigHashAnnotation
         then ((False, None), snd (scaleDownTarget env target st1))
         else case marshalError env replicaSet' of
                Some e \<Rightarrow> ((False, Some e), st1)
              | None \<Rightarrow>
                  ((False, patchObject env (trace st1) ReplicaSetT (objNamespace replicaSet)
                             (objName replicaSet) p),
                   logEvent (PatchObject ReplicaSetT (objNamespace replicaSet) (objName replicaSet) p)
                     (patchObject env (trace st1) ReplicaSetT (objNamespace replicaSet)
                        (objName replicaSet) p) st1))"
  using assms
  by (auto simp add: updateNeeded_def annotationsComplete_def callFindTargetByKindName_def errOf_def
      Let_def patchedReplicaSet_def patch_Data_def doPatch_def split: prod.splits option.splits)

lemma MergeFrom_patched:
  "patchKind (MergeFrom rs (patchedReplicaSet rs new h)) = None
   \<and> patchNamespace (MergeFrom rs (patchedReplicaSet rs new h)) = None
   \<and> patchName (MergeFrom rs (patchedReplicaSet rs new h)) = None
   \<and> patchUID (MergeFrom rs (patchedReplicaSet rs new h)) = None
   \<and> patchReplicas (MergeFrom rs (patchedReplicaSet rs new h)) = None
   \<and> patchTemplate (MergeFrom rs (patchedReplicaSet rs new h)) = changed (specTemplate rs) (specTemplate new)
   \<and> patchAnnotations (MergeFrom rs (patchedReplicaSet rs new h)) DevPodConfigHashAnnotation
       = changed (annotationsOf rs DevPodConfigHashAnnotation) (Some h)
   \<and> (\<forall>k. k \<noteq> DevPodConfigHashAnnotation \<longrightarrow>
         patchAnnotations (MergeFrom rs (patchedReplicaSet rs new h)) k = None)"
  by (simp add: MergeFrom_def patchedReplicaSet_def changed_def annotationsOf_def)

lemmas ex_defs =
  exEnv_def exEnvTargetGone_def exEnvTargetError_def exEnvPatchFails_def exEnvReplaced_def
  exState_def exStateReplaced_def exReplacement_def exUnmanaged_def exBuild_def exDeployment_def
  exDevPod_def exDevPodEdited_def exDevPodSameName_def exCacheEntry_def exGet_def
  TargetKindAnnotation_def TargetNameAnnotation_def DevPodConfigHashAnnotation_def
  ReplicasAnnotation_def

lemmas run_defs =
  updateNeeded_def deleteReplicaSet_def callFindTargetByKindName_def annotation_def
  annotationsOf_def annotationsComplete_def logEvent_def errOf_def kindsOf_def Let_def
  scaleDownTarget_def scaleDownCase_def replicaCount_def patch_Data_def doPatch_def

text \<open>
  C9. When the target-kind or the target-name annotation of the replacement is missing
  or empty, \<open>updateNeeded\<close> makes one call, the deletion of the replacement, and
  reports that a recreation is needed; a not-found answer to the deletion counts as
  success. When the annotations are complete and resolving the target fails, a
  not-found failure leads to the same deletion and report, and any other failure is
  returned as it is, with no recreation and no deletion.
\<close>

theorem updateNeeded_stale:
  "(\<not> annotationsComplete replicaSet \<longrightarrow>
      (case updateNeeded env replicaSet devPod st of
         ((recreateNeeded, r), st') \<Rightarrow>
           recreateNeeded
           \<and> trace st' = trace st @
                [Event (DeleteReplicaSet (objNamespace replicaSet) (objName replicaSet))
                   (deleteReplicaSetCall env (trace st) (objNamespace replicaSet) (objName replicaSet))]
           \<and> r = (case deleteReplicaSetCall env (trace st) (objNamespace replicaSet) (objName replicaSet) of
                    None \<Rightarrow> None
                  | Some e \<Rightarrow> if IsNotFound e then None else Some (Wrap e ''delete replica set''))))
   \<and> (annotationsComplete replicaSet \<longrightarrow>
        (\<forall>e find.
           find = FindTargetByKindName (annotation replicaSet TargetKindAnnotation)
                    (objNamespace replicaSet) (annotation replicaSet TargetNameAnnotation)
           \<and> findTargetByKindName env (trace st) (annotation replicaSet TargetKindAnnotation)
                 (objNamespace replicaSet) (annotation replicaSet TargetNameAnnotation) = Inl e \<longrightarrow>
           (case updateNeeded env replicaSet devPod st of
              ((recreateNeeded, r), st') \<Rightarrow>
                if IsNotFound e
                then recreateNeeded
                     \<and> trace st' = trace st @
                          [Event find (Some e),
                           Event (DeleteReplicaSet (objNamespace replicaSet) (objName replicaSet))
                             (deleteReplicaSetCall env (trace st @ [Event find (Some e)])
                                (objNamespace replicaSet) (objName replicaSet))]
                     \<and> r = (case deleteReplicaSetCall env (trace st @ [Event find (Some e)])
                                  (objNamespace replicaSet) (objName replicaSet) of
                              None \<Rightarrow> None
                            | Some e' \<Rightarrow> if IsNotFound e' then None else Some (Wrap e' ''delete replica set''))
                else \<not> recreateNeeded \<and> r = Some e \<and> trace st' = trace st @ [Event find (Some e)])))"
proof (intro conjI impI allI)
  assume "\<not> annotationsComplete replicaSet"
  then show "case updateNeeded env replicaSet devPod st of
         ((recreateNeeded, r), st') \<Rightarrow>
           recreateNeeded
           \<and> trace st' = trace st @
                [Event (DeleteReplicaSet (objNamespace replicaSet) (objName replicaSet))
                   (deleteReplicaSetCall env (trace st) (objNamespace replicaSet) (objName replicaSet))]
           \<and> r = (case deleteReplicaSetCall env (trace st) (objNamespace replicaSet) (objName replicaSet) of
                    None \<Rightarrow> None
                  | Some e \<Rightarrow> if IsNotFound e then None else Some (Wrap e ''delete replica set''))"
    by (simp add: updateNeeded_incomplete deleteReplicaSet_eq logEvent_def)
next
  fix e find
  assume c: "annotationsComplete replicaSet"
    and f: "find = FindTargetByKindName (annotation replicaSet TargetKindAnnotation)
                    (objNamespace replicaSet) (annotation replicaSet TargetNameAnnotation)
           \<and> findTargetByKindName env (trace st) (annotation replicaSet TargetKindAnnotation)
                 (objNamespace replicaSet) (annotation replicaSet TargetNameAnnotation) = Inl e"
  from f show "case updateNeeded env replicaSet devPod st of
              ((recreateNeeded, r), st') \<Rightarrow>
                if IsNotFound e
                then recreateNeeded
                     \<and> trace st' = trace st @
                          [Event find (Some e),
                           Event (DeleteReplicaSet (objNamespace replicaSet) (objName replicaSet))
                             (deleteReplicaSetCall env (trace st @ [Event find (Some e)])
                                (objNamespace replicaSet) (objName replicaSet))]
                     \<and> r = (case deleteReplicaSetCall env (trace st @ [Event find (Some e)])
                                  (objNamespace replicaSet) (objName replicaSet) of
                              None \<Rightarrow> None
                            | Some e' \<Rightarrow> if IsNotFound e' then None else Some (Wrap e' ''delete replica set''))
                else \<not> recreateNeeded \<and> r = Some e \<and> trace st' = trace st @ [Event find (Some e)]"
    by (simp add: updateNeeded_target_error [OF c] deleteReplicaSet_eq logEvent_def Let_def)
qed

theorem updateNeeded_stale_witness:
  "\<not> annotationsComplete exUnmanaged
   \<and> fst (updateNeeded exEnv exUnmanaged exDevPod exState) = (True, None)
   \<and> kindsOf (trace (snd (updateNeeded exEnv exUnmanaged exDevPod exState))) = [KDeleteReplicaSet]
   \<and> annotationsComplete exReplacement
   \<and> fst (updateNeeded exEnvTargetGone exReplacement exDevPod exState) = (True, None)
   \<and> kindsOf (trace (snd (updateNeeded exEnvTargetGone exReplacement exDevPod exState)))
       = [KFindTargetByKindName, KDeleteReplicaSet]
   \<and> fst (updateNeeded exEnvTargetError exReplacement exDevPod exState) = (False, Some (ApiError ''timeout''))
   \<and> kindsOf (trace (snd (updateNeeded exEnvTargetError exReplacement exDevPod exState)))
       = [KFindTargetByKindName]"
  using updateNeeded_stale [where replicaSet = exUnmanaged and env = exEnv and devPod = exDevPod and st = exState]
    updateNeeded_stale [where replicaSet = exReplacement and env = exEnvTargetGone and devPod = exDevPod and st = exState]
    updateNeeded_stale [where replicaSet = exReplacement and env = exEnvTargetError and devPod = exDevPod and st = exState]
  by (simp add: ex_defs run_defs)

lemma findReplaced_found:
  assumes "cache st (dpName devPod) = Some c" and "cReplicaSet c \<noteq> []"
    and "getReplicaSet env (trace st) (cNamespace c) (cName c) = Inr replicaSet"
  shows "findReplaced env devPod st =
     (case updateNeeded env replicaSet devPod
             (logEvent (GetReplicaSet (cNamespace c) (cName c)) None st) of
        ((recreateNeeded, Some e), st2) \<Rightarrow> Inl (Some e, st2)
      | ((recreateNeeded, None), st2) \<Rightarrow>
          if \<not> recreateNeeded then Inl (None, st2) else Inr (c, st2))"
  using assms
  by (simp add: findReplaced_def lookupDevPod_def GetDevPod_def callGetReplicaSet_def errOf_def Let_def)

text \<open>
  C10. When the annotated target resolves, the desired template is semantically equal to
  the live one and the computed hash equals the stored one, \<open>updateNeeded\<close> returns
  "no recreation" and no error, whatever \<open>scaleDownTarget\<close> answered: its state is
  the one the scale-down left, its result is not. A \<^verbatim>\<open>ReplacePod\<close> that found this
  replacement through its cache entry then returns success.
\<close>

theorem updateNeeded_swallows_scale_down_error:
  assumes "annotationsComplete replicaSet"
    and "findTargetByKindName env (trace s) (annotation replicaSet TargetKindAnnotation)
           (objNamespace replicaSet) (annotation replicaSet TargetNameAnnotation) = Inr target"
    and "buildReplicaSet env (objName replicaSet) target devPod = Inr newReplicaSet"
    and "hashConfig env devPod = Inr configHash"
    and "semanticDeepEqual env (specTemplate newReplicaSet) (specTemplate replicaSet)"
    and "configHash = annotation replicaSet DevPodConfigHashAnnotation"
  shows "fst (updateNeeded env replicaSet devPod s) = (False, None)
     \<and> snd (updateNeeded env replicaSet devPod s) =
         snd (scaleDownTarget env target
               (logEvent (FindTargetByKindName (annotation replicaSet TargetKindAnnotation)
                  (objNamespace replicaSet) (annotation replicaSet TargetNameAnnotation)) None s))
     \<and> (cache st (dpName devPod) = Some c \<and> cReplicaSet c \<noteq> []
          \<and> getReplicaSet env (trace st) (cNamespace c) (cName c) = Inr replicaSet
          \<and> s = logEvent (GetReplicaSet (cNamespace c) (cName c)) None st \<longrightarrow>
        ReplacePod (Suc n) env devPod st = Some (None, snd (updateNeeded env replicaSet devPod s)))"
proof -
  have u: "updateNeeded env replicaSet devPod s =
         ((False, None), snd (scaleDownTarget env target
               (logEvent (FindTargetByKindName (annotation replicaSet TargetKindAnnotation)
                  (objNamespace replicaSet) (annotation replicaSet TargetNameAnnotation)) None s)))"
    using assms(5,6) by (simp add: updateNeeded_resolved [OF assms(1-4)] Let_def)
  show ?thesis
  proof (intro conjI impI)
    show "fst (updateNeeded env replicaSet devPod s) = (False, None)"
      by (simp add: u)
    show "snd (updateNeeded env replicaSet devPod s) =
         snd (scaleDownTarget env target
               (logEvent (FindTargetByKindName (annotation replicaSet TargetKindAnnotation)
                  (objNamespace replicaSet) (annotation replicaSet TargetNameAnnotation)) None s))"
      by (simp add: u)
  next
    assume a: "cache st (dpName devPod) = Some c \<and> cReplicaSet c \<noteq> []
          \<and> getReplicaSet env (trace st) (cNamespace c) (cName c) = Inr replicaSet
          \<and> s = logEvent (GetReplicaSet (cNamespace c) (cName c)) None st"
    then have "findReplaced env devPod st = Inl (None, snd (updateNeeded env replicaSet devPod s))"
      using u by (simp add: findReplaced_found [of st devPod c env replicaSet])
    then show "ReplacePod (Suc n) env devPod st = Some (None, snd (updateNeeded env replicaSet devPod s))"
      by (simp add: ReplacePodBody_def)
  qed
qed



theorem updateNeeded_swallows_scale_down_error_witness:
  "annotationsComplete exReplacement
   \<and> fst (fst (scaleDownTarget exEnvReplaced exDeployment exState)) = Some (ApiError ''patch refused'')
   \<and> fst (updateNeeded exEnvReplaced exReplacement exDevPodSameName exState) = (False, None)
   \<and> kindsOf (trace (snd (updateNeeded exEnvReplaced exReplacement exDevPodSameName exState)))
       = [KFindTargetByKindName, KPatchObject]
   \<and> returned (ReplacePod 1 exEnvReplaced exDevPodSameName exStateReplaced) = Some None
   \<and> callsMade (ReplacePod 1 exEnvReplaced exDevPodSameName exStateReplaced)
       = [KGetReplicaSet, KFindTargetByKindName, KPatchObject]"
proof -
  let ?s = "logEvent (GetReplicaSet (cNamespace exCacheEntry) (cName exCacheEntry)) None exStateReplaced"
  have h1: "annotationsComplete exReplacement"
    by code_simp
  have h2: "findTargetByKindName exEnvReplaced (trace ?s) (annotation exReplacement TargetKindAnnotation)
           (objNamespace exReplacement) (annotation exReplacement TargetNameAnnotation) = Inr exDeployment"
    by (simp add: exEnvReplaced_def exEnvPatchFails_def exEnv_def)
  have h3: "buildReplicaSet exEnvReplaced (objName exReplacement) exDeployment exDevPodSameName
              = Inr (exBuild (objName exReplacement) exDeployment exDevPodSameName)"
    by (simp add: exEnvReplaced_def exEnvPatchFails_def exEnv_def)
  have h4: "hashConfig exEnvReplaced exDevPodSameName = Inr (dpConfig exDevPodSameName)"
    by (simp add: exEnvReplaced_def exEnvPatchFails_def exEnv_def)
  have h5: "semanticDeepEqual exEnvReplaced
              (specTemplate (exBuild (objName exReplacement) exDeployment exDevPodSameName))
              (specTemplate exReplacement)"
    by (simp add: exEnvReplaced_def exEnvPatchFails_def exEnv_def exBuild_def exReplacement_def
        exDevPodSameName_def exDevPod_def)
  have h6: "dpConfig exDevPodSameName = annotation exReplacement DevPodConfigHashAnnotation"
    by code_simp
  have h7: "cache exStateReplaced (dpName exDevPodSameName) = Some exCacheEntry
          \<and> cReplicaSet exCacheEntry \<noteq> []
          \<and> getReplicaSet exEnvReplaced (trace exStateReplaced) (cNamespace exCacheEntry) (cName exCacheEntry)
              = Inr exReplacement
          \<and> ?s = logEvent (GetReplicaSet (cNamespace exCacheEntry) (cName exCacheEntry)) None exStateReplaced"
    by (simp add: exStateReplaced_def exDevPodSameName_def exCacheEntry_def exEnvReplaced_def exGet_def)
  note t = updateNeeded_swallows_scale_down_error [OF h1 h2 h3 h4 h5 h6,
      where st = exStateReplaced and c = exCacheEntry and n = 0]
  have r: "ReplacePod 1 exEnvReplaced exDevPodSameName exStateReplaced
             = Some (None, snd (updateNeeded exEnvReplaced exReplacement exDevPodSameName ?s))"
    using t h7 by simp
  have e1: "fst (fst (scaleDownTarget exEnvReplaced exDeployment exState)) = Some (ApiError ''patch refused'')"
    by code_simp
  have e2: "fst (updateNeeded exEnvReplaced exReplacement exDevPodSameName exState) = (False, None)"
    by code_simp
  have e3: "kindsOf (trace (snd (updateNeeded exEnvReplaced exReplacement exDevPodSameName exState)))
       = [KFindTargetByKindName, KPatchObject]"
    by code_simp
  have e4: "kindsOf (trace (snd (updateNeeded exEnvReplaced exReplacement exDevPodSameName ?s)))
       = [KGetReplicaSet, KFindTargetByKindName, KPatchObject]"
    by code_simp
  show ?thesis
    unfolding r returned_def callsMade_def using h1 e1 e2 e3 e4 by simp
qed

lemma scaleDownTarget_trace:
  "\<exists>evs. trace (snd (scaleDownTarget env obj st)) = trace st @ evs
         \<and> set (kindsOf evs) \<subseteq> {KPatchObject} \<and> length evs \<le> 1
         \<and> cache (snd (scaleDownTarget env obj st)) = cache st"
proof (cases "goType obj = OtherT")
  case True
  then show ?thesis by (simp add: scaleDownTarget_other kindsOf_def)
next
  case False
  show ?thesis
  proof (cases "replicaCount obj = 0")
    case True
    with False show ?thesis
      by (simp add: scaleDownTarget_case scaleDownCase_zero kindsOf_def)
  next
    case nz: False
    with False show ?thesis
      by (simp add: scaleDownTarget_case scaleDownCase_nonzero kindsOf_def logEvent_def
          split: option.splits)
  qed
qed

text \<open>
  C2. When the annotated target resolves and the desired replacement and the hash can be
  computed, \<open>updateNeeded\<close> never reports that a recreation is needed. If the desired
  template is semantically equal to the live one and the hash equals the stored one, it
  only re-asserts the scale-down of the target and returns no error. Otherwise, unless
  encoding fails, it makes exactly one call: a merge patch of the replacement that
  carries the new template and the config-hash annotation and nothing else, whose answer
  it returns. In both cases the calls are the target look-up and at most one patch;
  nothing is deleted or created.
\<close>

theorem updateNeeded_patches_in_place:
  assumes "annotationsComplete replicaSet"
    and "findTargetByKindName env (trace s) (annotation replicaSet TargetKindAnnotation)
           (objNamespace replicaSet) (annotation replicaSet TargetNameAnnotation) = Inr target"
    and "buildReplicaSet env (objName replicaSet) target devPod = Inr newReplicaSet"
    and "hashConfig env devPod = Inr configHash"
  shows "let s1 = logEvent (FindTargetByKindName (annotation replicaSet TargetKindAnnotation)
                   (objNamespace replicaSet) (annotation replicaSet TargetNameAnnotation)) None s;
             replicaSet' = patchedReplicaSet replicaSet newReplicaSet configHash;
             p = MergeFrom replicaSet replicaSet';
             r = patchObject env (trace s1) ReplicaSetT (objNamespace replicaSet) (objName replicaSet) p
         in \<not> fst (fst (updateNeeded env replicaSet devPod s))
            \<and> (if semanticDeepEqual env (specTemplate newReplicaSet) (specTemplate replicaSet)
                   \<and> configHash = annotation replicaSet DevPodConfigHashAnnotation
                then updateNeeded env replicaSet devPod s
                       = ((False, None), snd (scaleDownTarget env target s1))
                else (case marshalError env replicaSet' of
                        Some e \<Rightarrow> updateNeeded env replicaSet devPod s = ((False, Some e), s1)
                      | None \<Rightarrow>
                          updateNeeded env replicaSet devPod s =
                            ((False, r),
                             s1\<lparr>trace := trace s1 @
                               [Event (PatchObject ReplicaSetT (objNamespace replicaSet)
                                         (objName replicaSet) p) r]\<rparr>))
                     \<and> patchTemplate p = changed (specTemplate replicaSet) (specTemplate newReplicaSet)
                     \<and> patchAnnotations p DevPodConfigHashAnnotation
                         = changed (annotationsOf replicaSet DevPodConfigHashAnnotation) (Some configHash)
                     \<and> (\<forall>k. k \<noteq> DevPodConfigHashAnnotation \<longrightarrow> patchAnnotations p k = None)
                     \<and> patchReplicas p = None \<and> patchKind p = None \<and> patchNamespace p = None
                     \<and> patchName p = None \<and> patchUID p = None)
            \<and> (\<exists>evs. trace (snd (updateNeeded env replicaSet devPod s)) = trace s @ evs
                  \<and> set (kindsOf evs) \<subseteq> {KFindTargetByKindName, KPatchObject}
                  \<and> length (patchCalls evs) \<le> 1)"
proof -
  let ?s1 = "logEvent (FindTargetByKindName (annotation replicaSet TargetKindAnnotation)
                   (objNamespace replicaSet) (annotation replicaSet TargetNameAnnotation)) None s"
  let ?rs' = "patchedReplicaSet replicaSet newReplicaSet configHash"
  let ?p = "MergeFrom replicaSet ?rs'"
  let ?r = "patchObject env (trace ?s1) ReplicaSetT (objNamespace replicaSet) (objName replicaSet) ?p"
  let ?eq = "semanticDeepEqual env (specTemplate newReplicaSet) (specTemplate replicaSet)
                   \<and> configHash = annotation replicaSet DevPodConfigHashAnnotation"
  note u = updateNeeded_resolved [OF assms]
  have flag: "\<not> fst (fst (updateNeeded env replicaSet devPod s))"
    by (simp add: u Let_def split: option.splits)
  have branch: "if ?eq
                then updateNeeded env replicaSet devPod s
                       = ((False, None), snd (scaleDownTarget env target ?s1))
                else (case marshalError env ?rs' of
                        Some e \<Rightarrow> updateNeeded env replicaSet devPod s = ((False, Some e), ?s1)
                      | None \<Rightarrow>
                          updateNeeded env replicaSet devPod s =
                            ((False, ?r),
                             ?s1\<lparr>trace := trace ?s1 @
                               [Event (PatchObject ReplicaSetT (objNamespace replicaSet)
                                         (objName replicaSet) ?p) ?r]\<rparr>))
                     \<and> patchTemplate ?p = changed (specTemplate replicaSet) (specTemplate newReplicaSet)
                     \<and> patchAnnotations ?p DevPodConfigHashAnnotation
                         = changed (annotationsOf replicaSet DevPodConfigHashAnnotation) (Some configHash)
                     \<and> (\<forall>k. k \<noteq> DevPodConfigHashAnnotation \<longrightarrow> patchAnnotations ?p k = None)
                     \<and> patchReplicas ?p = None \<and> patchKind ?p = None \<and> patchNamespace ?p = None
                     \<and> patchName ?p = None \<and> patchUID ?p = None"
    using MergeFrom_patched [of replicaSet newReplicaSet configHash]
    by (simp add: u Let_def logEvent_def split: option.splits)
  have evs: "\<exists>evs. trace (snd (updateNeeded env replicaSet devPod s)) = trace s @ evs
                  \<and> set (kindsOf evs) \<subseteq> {KFindTargetByKindName, KPatchObject}
                  \<and> length (patchCalls evs) \<le> 1"
  proof (cases ?eq)
    case True
    obtain es where es: "trace (snd (scaleDownTarget env target ?s1)) = trace ?s1 @ es"
      "set (kindsOf es) \<subseteq> {KPatchObject}" "length es \<le> 1"
      using scaleDownTarget_trace [of env target ?s1] by blast
    have pc: "length (patchCalls es) \<le> 1"
      using es(3) by (cases es rule: patchCalls.cases) simp_all
    let ?f = "Event (FindTargetByKindName (annotation replicaSet TargetKindAnnotation)
                   (objNamespace replicaSet) (annotation replicaSet TargetNameAnnotation)) None"
    have "trace (snd (updateNeeded env replicaSet devPod s)) = trace s @ (?f # es)"
      using True es(1) by (simp add: u Let_def logEvent_def)
    moreover have "set (kindsOf (?f # es)) \<subseteq> {KFindTargetByKindName, KPatchObject}"
      using es(2) by (auto simp add: kindsOf_def)
    moreover have "length (patchCalls (?f # es)) \<le> 1"
      using pc by simp
    ultimately show ?thesis by blast
  next
    case False
    then show ?thesis
      by (auto simp add: u Let_def logEvent_def kindsOf_def split: option.splits)
  qed
  show ?thesis
    unfolding Let_def using flag branch evs by blast
qed


theorem updateNeeded_patches_in_place_witness:
  "annotationsComplete exReplacement
   \<and> fst (updateNeeded exEnv exReplacement exDevPod exState) = (False, None)
   \<and> map (\<lambda>(res, ns, n, p). (res, ns, n, patchReplicas p, patchTemplate p))
         (patchCalls (trace (snd (updateNeeded exEnv exReplacement exDevPod exState))))
       = [(DeploymentT, ''dev'', ''api-deploy'', Some (Some 0), None)]
   \<and> fst (updateNeeded exEnv exReplacement exDevPodEdited exState) = (False, None)
   \<and> kindsOf (trace (snd (updateNeeded exEnv exReplacement exDevPodEdited exState)))
       = [KFindTargetByKindName, KPatchObject]
   \<and> map (\<lambda>(res, ns, n, p). (res, ns, n, patchReplicas p, patchTemplate p,
                                 patchAnnotations p DevPodConfigHashAnnotation))
         (patchCalls (trace (snd (updateNeeded exEnv exReplacement exDevPodEdited exState))))
       = [(ReplicaSetT, ''dev'', ''api-deploy-devspace'', None, Some (PodTemplate ''sync-v2''),
           Some (Some ''sync-v2''))]"
proof -
  have h1: "annotationsComplete exReplacement"
    by code_simp
  have h2: "findTargetByKindName exEnv (trace exState) (annotation exReplacement TargetKindAnnotation)
           (objNamespace exReplacement) (annotation exReplacement TargetNameAnnotation) = Inr exDeployment"
    by (simp add: exEnv_def)
  have h3: "buildReplicaSet exEnv (objName exReplacement) exDeployment d
              = Inr (exBuild (objName exReplacement) exDeployment d)" for d
    by (simp add: exEnv_def)
  have h4: "hashConfig exEnv d = Inr (dpConfig d)" for d
    by (simp add: exEnv_def)
  note same = updateNeeded_patches_in_place [OF h1 h2 h3 h4, where devPod = exDevPod]
  note edited = updateNeeded_patches_in_place [OF h1 h2 h3 h4, where devPod = exDevPodEdited]
  have e1: "fst (updateNeeded exEnv exReplacement exDevPod exState) = (False, None)"
    by code_simp
  have e2: "map (\<lambda>(res, ns, n, p). (res, ns, n, patchReplicas p, patchTemplate p))
         (patchCalls (trace (snd (updateNeeded exEnv exReplacement exDevPod exState))))
       = [(DeploymentT, ''dev'', ''api-deploy'', Some (Some 0), None)]"
    by code_simp
  have e3: "fst (updateNeeded exEnv exReplacement exDevPodEdited exState) = (False, None)"
    by code_simp
  have e4: "kindsOf (trace (snd (updateNeeded exEnv exReplacement exDevPodEdited exState)))
       = [KFindTargetByKindName, KPatchObject]"
    by code_simp
  have e5: "map (\<lambda>(res, ns, n, p). (res, ns, n, patchReplicas p, patchTemplate p,
                                 patchAnnotations p DevPodConfigHashAnnotation))
         (patchCalls (trace (snd (updateNeeded exEnv exReplacement exDevPodEdited exState))))
       = [(ReplicaSetT, ''dev'', ''api-deploy-devspace'', None, Some (PodTemplate ''sync-v2''),
           Some (Some ''sync-v2''))]"
    by code_simp
  show ?thesis
    using same edited h1 e1 e2 e3 e4 e5 by blast
qed

subsection \<open>A stale claim\<close>

lemma pollAttempts_value: "pollAttempts time_Second (time_Minute * 2) = 120"
  by (simp add: pollAttempts_def time_Second_def time_Minute_def)

lemma two_minutes: "time_Minute * 2 = 120 * time_Second"
  by (simp add: time_Minute_def)

lemma pollLoop_claimGone:
  "pollLoop k i (claimGone env ns n) st = (r, st') \<Longrightarrow>
   \<exists>polls. trace st' = trace st @ polls \<and> cache st' = cache st
     \<and> clock st' = clock st + int (length polls) * i
     \<and> (\<forall>ev \<in> set polls. callOf ev = GetPVC ns n)
     \<and> length polls \<le> k
     \<and> ((r = None \<and> polls \<noteq> [] \<and> (\<exists>e. failureOf (last polls) = Some e \<and> IsNotFound e))
        \<or> (r = Some ErrWaitTimeout \<and> length polls = k
            \<and> (\<forall>ev \<in> set polls. \<forall>e. failureOf ev = Some e \<longrightarrow> \<not> IsNotFound e)))"
proof (induction k arbitrary: st)
  case 0
  then show ?case by simp
next
  case (Suc k)
  let ?a = "getClaim env (trace st) ns n"
  let ?st1 = "logEvent (GetPVC ns n) ?a (st\<lparr>clock := clock st + i\<rparr>)"
  have step: "claimGone env ns n (st\<lparr>clock := clock st + i\<rparr>)
                = (((case ?a of None \<Rightarrow> False | Some e \<Rightarrow> IsNotFound e), None), ?st1)"
    by (simp add: claimGone_def Let_def)
  show ?case
  proof (cases "case ?a of None \<Rightarrow> False | Some e \<Rightarrow> IsNotFound e")
    case True
    then have "pollLoop (Suc k) i (claimGone env ns n) st = (None, ?st1)"
      by (simp add: step)
    with Suc.prems have "r = None" "st' = ?st1" by simp_all
    with True show ?thesis
      by (intro exI [of _ "[Event (GetPVC ns n) ?a]"])
        (auto simp add: logEvent_def split: option.splits)
  next
    case False
    then have "pollLoop (Suc k) i (claimGone env ns n) st = pollLoop k i (claimGone env ns n) ?st1"
      by (simp add: step)
    with Suc.prems have "pollLoop k i (claimGone env ns n) ?st1 = (r, st')" by simp
    from Suc.IH [OF this] obtain polls where p:
      "trace st' = trace ?st1 @ polls" "cache st' = cache ?st1"
      "clock st' = clock ?st1 + int (length polls) * i"
      "\<forall>ev \<in> set polls. callOf ev = GetPVC ns n" "length polls \<le> k"
      "(r = None \<and> polls \<noteq> [] \<and> (\<exists>e. failureOf (last polls) = Some e \<and> IsNotFound e))
        \<or> (r = Some ErrWaitTimeout \<and> length polls = k
            \<and> (\<forall>ev \<in> set polls. \<forall>e. failureOf ev = Some e \<longrightarrow> \<not> IsNotFound e))"
      by blast
    have c: "clock st' = clock st + int (length (Event (GetPVC ns n) ?a # polls)) * i"
      using p(3) by (simp add: logEvent_def algebra_simps)
    from False p(1,2,4,5,6) c show ?thesis
      by (intro exI [of _ "Event (GetPVC ns n) ?a # polls"])
        (auto simp add: logEvent_def split: option.splits)
  qed
qed

lemma createPVC_conflict:
  assumes "createPVC env replicaSet devPod st = (Some e, st1)" and "IsAlreadyExists e"
  shows "\<not> explicitClaimName devPod
     \<and> (\<exists>claim. claimRequest env replicaSet devPod = Inr claim
          \<and> st1 = logEvent (CreatePVC claim) (Some e) st)"
proof (cases "claimRequest env replicaSet devPod")
  case (Inl e')
  then have "e' = e" using assms(1) by (simp add: createPVC_def)
  moreover have "\<not> IsAlreadyExists e'"
    using Inl by (auto simp add: claimRequest_def Let_def split: option.splits if_splits sum.splits)
  ultimately show ?thesis using assms(2) by simp
next
  case (Inr claim)
  then show ?thesis
    using assms createPVC_request [OF Inr, of st]
    by (auto split: option.splits if_splits)
qed

lemma pollLoop_stuck:
  assumes "\<And>tr. getClaim env tr ns n = None"
  shows "fst (pollLoop k i (claimGone env ns n) st) = Some ErrWaitTimeout
     \<and> trace (snd (pollLoop k i (claimGone env ns n) st))
         = trace st @ replicate k (Event (GetPVC ns n) None)
     \<and> clock (snd (pollLoop k i (claimGone env ns n) st)) = clock st + int k * i"
proof (induction k arbitrary: st)
  case 0
  show ?case by simp
next
  case (Suc k)
  let ?st1 = "logEvent (GetPVC ns n) None (st\<lparr>clock := clock st + i\<rparr>)"
  have step: "claimGone env ns n (st\<lparr>clock := clock st + i\<rparr>) = ((False, None), ?st1)"
    by (simp add: claimGone_def assms Let_def)
  have "pollLoop (Suc k) i (claimGone env ns n) st = pollLoop k i (claimGone env ns n) ?st1"
    by (simp add: step)
  then show ?case
    using Suc.IH [of ?st1] by (simp add: logEvent_def algebra_simps)
qed

lemma ensureClaim_conflict_run:
  assumes "hasPersistPath devPod"
    and "createPVC env replicaSet devPod st = (Some e, st1)"
    and "IsAlreadyExists e"
  shows "\<not> explicitClaimName devPod
     \<and> (\<exists>d polls rest.
          trace (snd (ensureClaim env replicaSet devPod st)) =
            trace st1 @ Event (DeletePVC (objNamespace replicaSet) (objName replicaSet)) d # polls @ rest
          \<and> (\<forall>ev \<in> set polls. callOf ev = GetPVC (objNamespace replicaSet) (objName replicaSet))
          \<and> 1 \<le> length polls \<and> length polls \<le> 120
          \<and> clock (snd (ensureClaim env replicaSet devPod st))
              = clock st1 + int (length polls) * time_Second
          \<and> ((fst (ensureClaim env replicaSet devPod st)
                 = Some (Wrap ErrWaitTimeout ''waiting for pvc to terminate'')
               \<and> rest = []
               \<and> clock (snd (ensureClaim env replicaSet devPod st)) = clock st1 + time_Minute * 2
               \<and> (\<forall>ev \<in> set polls. \<forall>e'. failureOf ev = Some e' \<longrightarrow> \<not> IsNotFound e'))
             \<or> ((\<exists>e'. failureOf (last polls) = Some e' \<and> IsNotFound e')
                \<and> (\<exists>claim r. claimRequest env replicaSet devPod = Inr claim
                      \<and> rest = [Event (CreatePVC claim) r]
                      \<and> fst (ensureClaim env replicaSet devPod st) =
                          (case r of None \<Rightarrow> None
                           | Some e' \<Rightarrow> Some (Wrap e' ''create persistent volume claim''))))))"
proof -
  let ?ns = "objNamespace replicaSet" and ?n = "objName replicaSet"
  from createPVC_conflict [OF assms(2,3)] obtain claim where
    ne: "\<not> explicitClaimName devPod" and cl: "claimRequest env replicaSet devPod = Inr claim"
    by blast
  let ?d = "deleteClaim env (trace st1) ?ns ?n"
  let ?st2 = "callDeleteClaim env ?ns ?n st1"
  have tr2: "trace ?st2 = trace st1 @ [Event (DeletePVC ?ns ?n) ?d]" "clock ?st2 = clock st1"
    by (simp_all add: callDeleteClaim_def logEvent_def)
  obtain r st3 where poll: "pollLoop 120 time_Second (claimGone env ?ns ?n) ?st2 = (r, st3)"
    by (cases "pollLoop 120 time_Second (claimGone env ?ns ?n) ?st2") blast
  from pollLoop_claimGone [OF poll] obtain polls where p:
    "trace st3 = trace ?st2 @ polls"
    "clock st3 = clock ?st2 + int (length polls) * time_Second"
    "\<forall>ev \<in> set polls. callOf ev = GetPVC ?ns ?n" "length polls \<le> 120"
    "(r = None \<and> polls \<noteq> [] \<and> (\<exists>e. failureOf (last polls) = Some e \<and> IsNotFound e))
      \<or> (r = Some ErrWaitTimeout \<and> length polls = 120
          \<and> (\<forall>ev \<in> set polls. \<forall>e. failureOf ev = Some e \<longrightarrow> \<not> IsNotFound e))"
    by blast
  have unfold: "ensureClaim env replicaSet devPod st =
      (case r of
         Some e' \<Rightarrow> (Some (Wrap e' ''waiting for pvc to terminate''), st3)
       | None \<Rightarrow>
           (case createPVC env replicaSet devPod st3 of
              (Some e', st4) \<Rightarrow> (Some (Wrap e' ''create persistent volume claim''), st4)
            | (None, st4) \<Rightarrow> (None, st4)))"
    using assms poll
    by (simp add: ensureClaim_def wait_Poll_def pollAttempts_value Let_def split: option.splits)
  from p(5) have "\<exists>rest.
          trace (snd (ensureClaim env replicaSet devPod st)) =
            trace st1 @ Event (DeletePVC ?ns ?n) ?d # polls @ rest
          \<and> 1 \<le> length polls
          \<and> clock (snd (ensureClaim env replicaSet devPod st))
              = clock st1 + int (length polls) * time_Second
          \<and> ((fst (ensureClaim env replicaSet devPod st)
                 = Some (Wrap ErrWaitTimeout ''waiting for pvc to terminate'')
               \<and> rest = []
               \<and> clock (snd (ensureClaim env replicaSet devPod st)) = clock st1 + time_Minute * 2
               \<and> (\<forall>ev \<in> set polls. \<forall>e'. failureOf ev = Some e' \<longrightarrow> \<not> IsNotFound e'))
             \<or> ((\<exists>e'. failureOf (last polls) = Some e' \<and> IsNotFound e')
                \<and> (\<exists>claim r. claimRequest env replicaSet devPod = Inr claim
                      \<and> rest = [Event (CreatePVC claim) r]
                      \<and> fst (ensureClaim env replicaSet devPod st) =
                          (case r of None \<Rightarrow> None
                           | Some e' \<Rightarrow> Some (Wrap e' ''create persistent volume claim'')))))"
  proof
    assume gone: "r = None \<and> polls \<noteq> [] \<and> (\<exists>e. failureOf (last polls) = Some e \<and> IsNotFound e)"
    let ?c = "createClaim env (trace st3) claim"
    have again: "createPVC env replicaSet devPod st3 = (?c, logEvent (CreatePVC claim) ?c st3)"
      using createPVC_request [OF cl, of st3] ne by (simp split: option.splits)
    have res: "ensureClaim env replicaSet devPod st =
        ((case ?c of None \<Rightarrow> None | Some e' \<Rightarrow> Some (Wrap e' ''create persistent volume claim'')),
         logEvent (CreatePVC claim) ?c st3)"
      using gone by (simp add: unfold again split: option.splits)
    have len: "1 \<le> length polls"
      using gone by (cases polls) simp_all
    show ?thesis
      using gone cl len
      by (intro exI [of _ "[Event (CreatePVC claim) ?c]"])
        (simp add: res logEvent_def p(1,2) tr2)
  next
    assume stuck: "r = Some ErrWaitTimeout \<and> length polls = 120
          \<and> (\<forall>ev \<in> set polls. \<forall>e. failureOf ev = Some e \<longrightarrow> \<not> IsNotFound e)"
    then show ?thesis
      by (intro exI [of _ "[]"]) (simp add: unfold p(1,2) tr2 two_minutes)
  qed
  with ne p(3,4) show ?thesis
    by blast
qed

subsection \<open>The order of calls\<close>

lemma kindsOf_append [simp]: "kindsOf (xs @ ys) = kindsOf xs @ kindsOf ys"
  by (simp add: kindsOf_def)

lemma kindsOf_Cons [simp]: "kindsOf (Event c r # evs) = kindOf c # kindsOf evs"
  by (simp add: kindsOf_def)

lemma kindsOf_Nil [simp]: "kindsOf [] = []"
  by (simp add: kindsOf_def)

lemma scaleDownTarget_calls:
  "\<exists>evs. trace (snd (scaleDownTarget env obj st)) = trace st @ evs
         \<and> subseq (kindsOf evs) [KPatchObject]
         \<and> cache (snd (scaleDownTarget env obj st)) = cache st"
proof -
  obtain evs where e: "trace (snd (scaleDownTarget env obj st)) = trace st @ evs"
    "set (kindsOf evs) \<subseteq> {KPatchObject}" "length evs \<le> 1"
    "cache (snd (scaleDownTarget env obj st)) = cache st"
    using scaleDownTarget_trace [of env obj st] by blast
  have "subseq (kindsOf evs) [KPatchObject]"
  proof (cases evs)
    case Nil
    then show ?thesis by simp
  next
    case (Cons ev rest)
    with e(3) have "rest = []" by simp
    with Cons e(2) show ?thesis by (cases ev) simp
  qed
  with e show ?thesis by blast
qed

lemma deleteReplicaSet_calls:
  "trace (snd (deleteReplicaSet env rs st)) = trace st @
     [Event (DeleteReplicaSet (objNamespace rs) (objName rs))
        (deleteReplicaSetCall env (trace st) (objNamespace rs) (objName rs))]
   \<and> cache (snd (deleteReplicaSet env rs st)) = cache st"
  by (simp add: deleteReplicaSet_eq logEvent_def)

lemma updateNeeded_calls:
  assumes "updateNeeded env rs devPod st = ((rc, r), st')"
  shows "cache st' = cache st
     \<and> (\<exists>evs. trace st' = trace st @ evs
          \<and> subseq (kindsOf evs)
               (if rc then [KFindTargetByKindName, KDeleteReplicaSet]
                else [KFindTargetByKindName, KPatchObject]))"
proof (cases "annotationsComplete rs")
  case False
  with assms show ?thesis
    using deleteReplicaSet_calls [of env rs st]
    by (auto simp add: updateNeeded_incomplete)
next
  case c: True
  let ?k = "annotation rs TargetKindAnnotation" and ?n = "annotation rs TargetNameAnnotation"
  show ?thesis
  proof (cases "findTargetByKindName env (trace st) ?k (objNamespace rs) ?n")
    case (Inl e)
    let ?s1 = "logEvent (FindTargetByKindName ?k (objNamespace rs) ?n) (Some e) st"
    show ?thesis
    proof (cases "IsNotFound e")
      case True
      with assms show ?thesis
        using deleteReplicaSet_calls [of env rs ?s1]
        by (auto simp add: updateNeeded_target_error [OF c Inl] Let_def logEvent_def)
    next
      case False
      with assms show ?thesis
        by (auto simp add: updateNeeded_target_error [OF c Inl] Let_def logEvent_def)
    qed
  next
    case (Inr target)
    let ?s1 = "logEvent (FindTargetByKindName ?k (objNamespace rs) ?n) None st"
    have start: "callFindTargetByKindName env ?k (objNamespace rs) ?n st = (Inr target, ?s1)"
      using Inr by (simp add: callFindTargetByKindName_def errOf_def)
    obtain m where c': "objAnnotations rs = Some m" "?k \<noteq> []" "?n \<noteq> []"
      using c by (auto simp add: annotationsComplete_def)
    show ?thesis
    proof (cases "buildReplicaSet env (objName rs) target devPod")
      case bl: (Inl e)
      have "updateNeeded env rs devPod st = ((False, Some e), ?s1)"
        using c' by (simp add: updateNeeded_def start bl)
      with assms show ?thesis by (auto simp add: logEvent_def)
    next
      case br: (Inr new)
      show ?thesis
      proof (cases "hashConfig env devPod")
        case hl: (Inl e)
        have "updateNeeded env rs devPod st = ((False, Some (Wrap e ''hash config'')), ?s1)"
          using c' by (simp add: updateNeeded_def start br hl)
        with assms show ?thesis by (auto simp add: logEvent_def)
      next
        case hr: (Inr h)
        note u = updateNeeded_resolved [OF c Inr br hr]
        show ?thesis
        proof (cases "semanticDeepEqual env (specTemplate new) (specTemplate rs)
                       \<and> h = annotation rs DevPodConfigHashAnnotation")
          case True
          obtain es where es: "trace (snd (scaleDownTarget env target ?s1)) = trace ?s1 @ es"
            "subseq (kindsOf es) [KPatchObject]"
            "cache (snd (scaleDownTarget env target ?s1)) = cache ?s1"
            using scaleDownTarget_calls [of env target ?s1] by blast
          from True assms have "rc = False" "st' = snd (scaleDownTarget env target ?s1)"
            by (simp_all add: u Let_def)
          with es show ?thesis
            by (auto simp add: logEvent_def)
        next
          case False
          with assms show ?thesis
            by (auto simp add: u Let_def logEvent_def split: option.splits)
        qed
      qed
    qed
  qed
qed

lemma findReplaced_fallthrough:
  assumes "findReplaced env devPod st = Inr (c, st1)"
  shows "c = lookupDevPod env devPod st \<and> cache st1 = cache st
     \<and> (\<exists>evs. trace st1 = trace st @ evs
          \<and> subseq (kindsOf evs) [KGetReplicaSet, KFindTargetByKindName, KDeleteReplicaSet])"
proof -
  define c0 where "c0 = lookupDevPod env devPod st"
  show ?thesis
  proof (cases "cReplicaSet c0 \<noteq> []")
    case False
    with assms show ?thesis
      by (auto simp add: findReplaced_def Let_def c0_def)
  next
    case True
    let ?g = "getReplicaSet env (trace st) (cNamespace c0) (cName c0)"
    let ?s1 = "logEvent (GetReplicaSet (cNamespace c0) (cName c0)) (errOf ?g) st"
    have f: "findReplaced env devPod st =
       (case ?g of
          Inl e \<Rightarrow> if \<not> IsNotFound e then Inl (Some (Wrap e ''find devspace replica set''), ?s1)
                   else Inr (c0, ?s1)
        | Inr replicaSet \<Rightarrow>
            (case updateNeeded env replicaSet devPod ?s1 of
               ((recreateNeeded, Some e), st2) \<Rightarrow> Inl (Some e, st2)
             | ((recreateNeeded, None), st2) \<Rightarrow>
                 if \<not> recreateNeeded then Inl (None, st2) else Inr (c0, st2)))"
      using True
      by (simp add: findReplaced_def Let_def callGetReplicaSet_def c0_def [symmetric] split: sum.splits)
    show ?thesis
    proof (cases ?g)
      case (Inl e)
      with assms have "st1 = ?s1" "c = c0"
        by (auto simp add: f split: if_splits)
      then show ?thesis by (simp add: logEvent_def c0_def)
    next
      case (Inr rs)
      obtain rc r st2 where u: "updateNeeded env rs devPod ?s1 = ((rc, r), st2)"
        by (metis prod.exhaust)
      with Inr assms have "rc" "st1 = st2" "c = c0"
        by (auto simp add: f split: if_splits option.splits)
      with updateNeeded_calls [OF u] show ?thesis
        by (auto simp add: logEvent_def c0_def)
    qed
  qed
qed

subsection \<open>The full replacement of a resolved target\<close>

lemma recreate_found:
  assumes "findTargetBySelector env (trace st1) devPod = Inr (Some target)"
  shows "recreate retry env c devPod st1 =
     (let c' = c\<lparr>cTargetKind := objKind target, cTargetName := objName target,
                  cReplicaSet := objName target @ ''-devspace''\<rparr>;
          cache' = (cache st1)(cName c \<mapsto> c');
          found = Event (FindTargetBySelector devPod) None;
          r = saveCache env (trace st1 @ [found]) cache';
          st3 = st1\<lparr>cache := cache', trace := trace st1 @ [found, Event (SaveCache cache') r]\<rparr>
      in case r of
           Some e \<Rightarrow> Some (Some e, st3)
         | None \<Rightarrow> replace retry env (objName target @ ''-devspace'') target devPod st3)"
  using assms
  by (simp add: recreate_def callFindTargetBySelector_def errOf_def SetDevPod_def Save_def
      logEvent_def Let_def split: option.splits)

lemma replace_conflict:
  assumes "buildReplicaSet env name target devPod = Inr obj"
    and "scaleDownTarget env target st = ((None, t), st1)"
    and "createReplicaSet env (trace st1) obj = Inl e"
    and "IsAlreadyExists e"
  shows "replace retry env name target devPod st = retry (logEvent (CreateReplicaSet obj) (Some e) st1)"
  using assms by (simp add: replace_def callCreateReplicaSet_def errOf_def Let_def)

subsection \<open>A stale claim ends the pass\<close>

lemma replace_created:
  assumes "buildReplicaSet env name target devPod = Inr obj"
    and "scaleDownTarget env target st = ((None, t), s1)"
    and "createReplicaSet env (trace s1) obj = Inr replicaSet"
  shows "replace retry env name target devPod st
           = Some (ensureClaim env replicaSet devPod (logEvent (CreateReplicaSet obj) None s1))"
  using assms by (simp add: replace_def callCreateReplicaSet_def errOf_def Let_def)

lemma ReplacePod_full_path:
  assumes "findReplaced env devPod st0 = Inr (c, sA)"
    and "findTargetBySelector env (trace sA) devPod = Inr (Some target)"
    and "saveCache env (trace sA @ [Event (FindTargetBySelector devPod) None])
           ((cache sA)(cName c \<mapsto> replacedEntry c target)) = None"
  shows "ReplacePod (Suc n) env devPod st0
           = replace (ReplacePod n env devPod) env (objName target @ ''-devspace'') target devPod
               (replaceStart c devPod target sA)"
proof -
  have "ReplacePod (Suc n) env devPod st0 = recreate (ReplacePod n env devPod) env c devPod sA"
    using assms(1) by (simp add: ReplacePodBody_def)
  then show ?thesis
    using assms(3)
    by (simp add: recreate_found [OF assms(2)] replaceStart_def replacedEntry_def Let_def)
qed

lemma ensureClaim_stuck:
  assumes "hasPersistPath devPod"
    and "createPVC env replicaSet devPod st = (Some e, st1)"
    and "IsAlreadyExists e"
    and "\<And>tr. getClaim env tr (objNamespace replicaSet) (objName replicaSet) = None"
  shows "fst (ensureClaim env replicaSet devPod st)
           = Some (Wrap ErrWaitTimeout ''waiting for pvc to terminate'')
     \<and> kindsOf (trace (snd (ensureClaim env replicaSet devPod st)))
         = kindsOf (trace st1) @ KDeletePVC # replicate 120 KGetPVC
     \<and> clock (snd (ensureClaim env replicaSet devPod st)) = clock st1 + time_Minute * 2"
proof -
  let ?ns = "objNamespace replicaSet" and ?n = "objName replicaSet"
  let ?st2 = "callDeleteClaim env ?ns ?n st1"
  obtain r st3 where poll: "pollLoop 120 time_Second (claimGone env ?ns ?n) ?st2 = (r, st3)"
    by (cases "pollLoop 120 time_Second (claimGone env ?ns ?n) ?st2") blast
  from pollLoop_stuck [of env ?ns ?n 120 time_Second ?st2, OF assms(4)] poll
  have p: "r = Some ErrWaitTimeout"
    "trace st3 = trace ?st2 @ replicate 120 (Event (GetPVC ?ns ?n) None)"
    "clock st3 = clock ?st2 + 120 * time_Second"
    by simp_all
  have "ensureClaim env replicaSet devPod st
          = (Some (Wrap ErrWaitTimeout ''waiting for pvc to terminate''), st3)"
    using assms(1,2,3) poll p(1)
    by (simp add: ensureClaim_def wait_Poll_def pollAttempts_value Let_def)
  then show ?thesis
    using p(2,3)
    by (simp add: callDeleteClaim_def logEvent_def two_minutes kindsOf_def)
qed


text \<open>
  C8. \<open>replace\<close> has built the replacement, scaled the target down and created the
  replacement; the dev pod persists a path, and creating the claim fails with an
  already-exists error. Then no explicit claim name was given. \<open>replace\<close> deletes the
  claim named after the replacement and polls for it with
  \<^verbatim>\<open>wait.Poll(time.Second, time.Minute*2, ...)\<close>: at least one poll is made, every
  poll follows a wait of one second, so that the time waited is one second for each poll,
  and it is never more than two minutes. Either no poll was answered not-found: then two
  minutes were waited, \<open>replace\<close> returns the time-out, wrapped as
  \<open>waiting for pvc to terminate\<close>, and makes no further call. Or the last poll was
  answered not-found: then the claim is created once more, and whatever that creation
  answers is the result, with no further attempt. The result of \<open>replace\<close> is also the
  result of every call of \<^verbatim>\<open>ReplacePod\<close> that reaches \<open>replace\<close> in this
  state, so the time-out ends the pass.
\<close>

theorem replace_stale_claim:
  assumes "buildReplicaSet env name target devPod = Inr obj"
    and "scaleDownTarget env target st = ((None, t), s1)"
    and "createReplicaSet env (trace s1) obj = Inr replicaSet"
    and "hasPersistPath devPod"
    and "createPVC env replicaSet devPod (logEvent (CreateReplicaSet obj) None s1) = (Some e, s2)"
    and "IsAlreadyExists e"
  shows "\<not> explicitClaimName devPod
     \<and> (\<exists>r st' d polls rest.
          replace retry env name target devPod st = Some (r, st')
          \<and> (\<forall>n st0 c sA.
                findReplaced env devPod st0 = Inr (c, sA)
                \<and> findTargetBySelector env (trace sA) devPod = Inr (Some target)
                \<and> saveCache env (trace sA @ [Event (FindTargetBySelector devPod) None])
                     ((cache sA)(cName c \<mapsto> replacedEntry c target)) = None
                \<and> name = objName target @ ''-devspace''
                \<and> st = replaceStart c devPod target sA
                \<longrightarrow> ReplacePod (Suc n) env devPod st0 = Some (r, st'))
          \<and> trace st' =
              trace s2 @ Event (DeletePVC (objNamespace replicaSet) (objName replicaSet)) d # polls @ rest
          \<and> (\<forall>ev \<in> set polls. callOf ev = GetPVC (objNamespace replicaSet) (objName replicaSet))
          \<and> 1 \<le> length polls
          \<and> clock st' = clock s2 + int (length polls) * time_Second
          \<and> clock st' \<le> clock s2 + time_Minute * 2
          \<and> ((r = Some (Wrap ErrWaitTimeout ''waiting for pvc to terminate'')
               \<and> rest = []
               \<and> clock st' = clock s2 + time_Minute * 2
               \<and> (\<forall>ev \<in> set polls. \<forall>e'. failureOf ev = Some e' \<longrightarrow> \<not> IsNotFound e'))
             \<or> ((\<exists>e'. failureOf (last polls) = Some e' \<and> IsNotFound e')
                \<and> (\<exists>claim x. claimRequest env replicaSet devPod = Inr claim
                      \<and> rest = [Event (CreatePVC claim) x]
                      \<and> r = (case x of None \<Rightarrow> None
                              | Some e' \<Rightarrow> Some (Wrap e' ''create persistent volume claim''))))))"
proof -
  let ?s = "logEvent (CreateReplicaSet obj) None s1"
  let ?res = "ensureClaim env replicaSet devPod ?s"
  have run: "replace retry env name target devPod st = Some (fst ?res, snd ?res)" for retry
    using replace_created [OF assms(1,2,3)] by simp
  have pod: "ReplacePod (Suc n) env devPod st0 = Some (fst ?res, snd ?res)"
    if "findReplaced env devPod st0 = Inr (c, sA)"
      and "findTargetBySelector env (trace sA) devPod = Inr (Some target)"
      and "saveCache env (trace sA @ [Event (FindTargetBySelector devPod) None])
             ((cache sA)(cName c \<mapsto> replacedEntry c target)) = None"
      and "name = objName target @ ''-devspace''"
      and "st = replaceStart c devPod target sA"
    for n st0 c sA
    using ReplacePod_full_path [OF that(1,2,3), of n] run [of "ReplacePod n env devPod"] that(4,5)
    by simp
  from ensureClaim_conflict_run [OF assms(4,5,6)] obtain d polls rest where
    ne: "\<not> explicitClaimName devPod"
    and tr: "trace (snd ?res) =
        trace s2 @ Event (DeletePVC (objNamespace replicaSet) (objName replicaSet)) d # polls @ rest"
    and calls: "\<forall>ev \<in> set polls. callOf ev = GetPVC (objNamespace replicaSet) (objName replicaSet)"
    and len: "1 \<le> length polls" "length polls \<le> 120"
    and clk: "clock (snd ?res) = clock s2 + int (length polls) * time_Second"
    and ends: "(fst ?res = Some (Wrap ErrWaitTimeout ''waiting for pvc to terminate'')
               \<and> rest = []
               \<and> clock (snd ?res) = clock s2 + time_Minute * 2
               \<and> (\<forall>ev \<in> set polls. \<forall>e'. failureOf ev = Some e' \<longrightarrow> \<not> IsNotFound e'))
             \<or> ((\<exists>e'. failureOf (last polls) = Some e' \<and> IsNotFound e')
                \<and> (\<exists>claim x. claimRequest env replicaSet devPod = Inr claim
                      \<and> rest = [Event (CreatePVC claim) x]
                      \<and> fst ?res = (case x of None \<Rightarrow> None
                              | Some e' \<Rightarrow> Some (Wrap e' ''create persistent volume claim''))))"
    by blast
  have "int (length polls) * time_Second \<le> 120 * time_Second"
    using len(2) by (simp add: time_Second_def)
  then have bound: "clock (snd ?res) \<le> clock s2 + time_Minute * 2"
    using clk by (simp add: two_minutes)
  have pod': "\<forall>n st0 c sA.
                findReplaced env devPod st0 = Inr (c, sA)
                \<and> findTargetBySelector env (trace sA) devPod = Inr (Some target)
                \<and> saveCache env (trace sA @ [Event (FindTargetBySelector devPod) None])
                     ((cache sA)(cName c \<mapsto> replacedEntry c target)) = None
                \<and> name = objName target @ ''-devspace''
                \<and> st = replaceStart c devPod target sA
                \<longrightarrow> ReplacePod (Suc n) env devPod st0 = Some (fst ?res, snd ?res)"
    using pod by blast
  show ?thesis
    using ne run [of retry] pod' tr calls len(1) clk bound ends by blast
qed


theorem replace_stale_claim_witness:
  "hasPersistPath exDevPodPersist \<and> \<not> explicitClaimName exDevPodPersist
   \<and> returned (ReplacePod 1 exEnvClaimStuck exDevPodPersist exState)
       = Some (Some (Wrap ErrWaitTimeout ''waiting for pvc to terminate''))
   \<and> callsMade (ReplacePod 1 exEnvClaimStuck exDevPodPersist exState)
       = [KFindTargetBySelector, KSaveCache, KPatchObject, KCreateReplicaSet, KCreatePVC,
          KDeletePVC] @ replicate 120 KGetPVC
   \<and> waited (ReplacePod 1 exEnvClaimStuck exDevPodPersist exState) = 120 * time_Second
   \<and> returned (ReplacePod 1 exEnvClaimStale exDevPodPersist exState) = Some None
   \<and> callsMade (ReplacePod 1 exEnvClaimStale exDevPodPersist exState)
       = [KFindTargetBySelector, KSaveCache, KPatchObject, KCreateReplicaSet, KCreatePVC,
          KDeletePVC, KGetPVC, KCreatePVC]
   \<and> waited (ReplacePod 1 exEnvClaimStale exDevPodPersist exState) = time_Second"
proof -
  let ?E = exEnvClaimStuck and ?D = exDevPodPersist and ?T = exDeployment
  let ?c = "lookupDevPod ?E ?D exState"
  let ?st = "replaceStart ?c ?D ?T exState"
  let ?obj = "exBuild ''api-deploy-devspace'' ?T ?D"
  let ?down = "scaleDownTarget ?E ?T ?st"
  let ?s = "logEvent (CreateReplicaSet ?obj) None (snd ?down)"
  let ?s2 = "snd (createPVC ?E ?obj ?D ?s)"
  have h1: "buildReplicaSet ?E ''api-deploy-devspace'' ?T ?D = Inr ?obj"
    by (simp add: exEnvClaimStuck_def exEnvClaimExists_def exEnv_def)
  have "fst (fst ?down) = None" by code_simp
  then have h2: "?down = ((None, snd (fst ?down)), snd ?down)"
    by (simp add: prod_eq_iff)
  have h3: "createReplicaSet ?E (trace (snd ?down)) ?obj = Inr ?obj"
    by (simp add: exEnvClaimStuck_def exEnvClaimExists_def exEnv_def)
  have h4: "hasPersistPath ?D" by code_simp
  have "fst (createPVC ?E ?obj ?D ?s) = Some AlreadyExists" by code_simp
  then have h5: "createPVC ?E ?obj ?D ?s = (Some AlreadyExists, ?s2)"
    by (simp add: prod_eq_iff)
  have h6: "IsAlreadyExists AlreadyExists" by simp
  note t = replace_stale_claim [OF h1 h2 h3 h4 h5 h6, where retry = "ReplacePod 0 ?E ?D"]
  have p1: "findReplaced ?E ?D exState = Inr (?c, exState)"
    by (simp add: findReplaced_def lookupDevPod_def GetDevPod_def exState_def
        zeroDevPodCache_def exDevPodPersist_def exDevPod_def Let_def)
  have p2: "findTargetBySelector ?E (trace exState) ?D = Inr (Some ?T)"
    by (simp add: exEnvClaimStuck_def exEnvClaimExists_def exEnv_def)
  have p3: "saveCache ?E (trace exState @ [Event (FindTargetBySelector ?D) None])
              ((cache exState)(cName ?c \<mapsto> replacedEntry ?c ?T)) = None"
    by (simp add: exEnvClaimStuck_def exEnvClaimExists_def exEnv_def)
  have p4: "''api-deploy-devspace'' = objName ?T @ ''-devspace''"
    by (simp add: exDeployment_def)
  from t p1 p2 p3 p4 obtain r st' where
    ne: "\<not> explicitClaimName ?D"
    and pod: "ReplacePod (Suc 0) ?E ?D exState = Some (r, st')"
    and rep: "replace (ReplacePod 0 ?E ?D) ?E ''api-deploy-devspace'' ?T ?D ?st = Some (r, st')"
    by blast
  have run: "replace (ReplacePod 0 ?E ?D) ?E ''api-deploy-devspace'' ?T ?D ?st
               = Some (ensureClaim ?E ?obj ?D ?s)"
    by (rule replace_created [OF h1 h2 h3])
  have gone: "getClaim ?E tr (objNamespace ?obj) (objName ?obj) = None" for tr
    by (simp add: exEnvClaimStuck_def)
  note stuck = ensureClaim_stuck [OF h4 h5 h6 gone]
  have k2: "kindsOf (trace ?s2)
              = [KFindTargetBySelector, KSaveCache, KPatchObject, KCreateReplicaSet, KCreatePVC]"
    by code_simp
  have c2: "clock ?s2 = 0" by code_simp
  have res: "ensureClaim ?E ?obj ?D ?s = (r, st')"
    using rep run by simp
  have e1: "returned (ReplacePod 1 ?E ?D exState)
              = Some (Some (Wrap ErrWaitTimeout ''waiting for pvc to terminate''))"
    using stuck res pod by (simp add: returned_def)
  have e2: "callsMade (ReplacePod 1 ?E ?D exState)
       = [KFindTargetBySelector, KSaveCache, KPatchObject, KCreateReplicaSet, KCreatePVC,
          KDeletePVC] @ replicate 120 KGetPVC"
    using stuck res pod k2 by (simp add: callsMade_def)
  have e3: "waited (ReplacePod 1 ?E ?D exState) = 120 * time_Second"
    using stuck res pod c2 by (simp add: waited_def two_minutes)
  have e4: "returned (ReplacePod 1 exEnvClaimStale ?D exState) = Some None"
    by code_simp
  have e5: "callsMade (ReplacePod 1 exEnvClaimStale ?D exState)
       = [KFindTargetBySelector, KSaveCache, KPatchObject, KCreateReplicaSet, KCreatePVC,
          KDeletePVC, KGetPVC, KCreatePVC]"
    by code_simp
  have e6: "waited (ReplacePod 1 exEnvClaimStale ?D exState) = time_Second"
    by code_simp
  show ?thesis
    using h4 ne e1 e2 e3 e4 e5 e6 by blast
qed

subsection \<open>The order of calls in one invocation\<close>

lemma subseq_replicate: "j \<le> k \<Longrightarrow> subseq (replicate j x) (replicate k x)"
proof -
  assume "j \<le> k"
  then obtain d where "k = d + j" by (metis le_add_diff_inverse2)
  then have "replicate k x = replicate d x @ replicate j x"
    by (simp add: replicate_add)
  then show ?thesis by (simp add: subseq_drop_many)
qed

lemma subseq_one: "subseq xs [a] \<Longrightarrow> subseq xs (a # ys)"
  using subseq_rev_drop_many [of xs "[a]" ys] by simp

lemma kindsOf_polls:
  "\<forall>ev \<in> set polls. callOf ev = GetPVC ns n \<Longrightarrow> kindsOf polls = replicate (length polls) KGetPVC"
  by (induction polls) (simp_all add: kindsOf_def)

lemma createPVC_calls:
  "\<exists>evs. trace (snd (createPVC env rs devPod st)) = trace st @ evs
         \<and> subseq (kindsOf evs) [KCreatePVC]
         \<and> cache (snd (createPVC env rs devPod st)) = cache st"
proof (cases "claimRequest env rs devPod")
  case (Inl e)
  then show ?thesis by (simp add: createPVC_def)
next
  case (Inr claim)
  show ?thesis
    by (simp add: createPVC_request [OF Inr] logEvent_def)
qed

lemma ensureClaim_calls:
  "\<exists>evs. trace (snd (ensureClaim env rs devPod st)) = trace st @ evs
         \<and> subseq (kindsOf evs) claimOrder"
proof (cases "hasPersistPath devPod")
  case False
  then show ?thesis by (simp add: ensureClaim_def)
next
  case True
  obtain r st1 where c: "createPVC env rs devPod st = (r, st1)"
    by (metis prod.exhaust)
  obtain evs1 where e1: "trace st1 = trace st @ evs1" "subseq (kindsOf evs1) [KCreatePVC]"
    using createPVC_calls [of env rs devPod st] c by auto
  show ?thesis
  proof (cases "\<exists>e. r = Some e \<and> IsAlreadyExists e")
    case False
    then have "snd (ensureClaim env rs devPod st) = st1"
      using True c by (auto simp add: ensureClaim_def split: option.splits)
    moreover have "subseq (kindsOf evs1) claimOrder"
      using e1(2) by (simp add: claimOrder_def subseq_one)
    ultimately show ?thesis using e1(1) by auto
  next
    case conflict: True
    then obtain e where e: "r = Some e" "IsAlreadyExists e" by blast
    from createPVC_conflict [OF c [unfolded e(1)] e(2)] obtain claim where
      st1: "st1 = logEvent (CreatePVC claim) (Some e) st"
      by blast
    from ensureClaim_conflict_run [OF True c [unfolded e(1)] e(2)] obtain d polls rest where
      run: "trace (snd (ensureClaim env rs devPod st)) =
              trace st1 @ Event (DeletePVC (objNamespace rs) (objName rs)) d # polls @ rest"
        "\<forall>ev \<in> set polls. callOf ev = GetPVC (objNamespace rs) (objName rs)"
        "length polls \<le> 120"
        "rest = [] \<or> (\<exists>claim r. rest = [Event (CreatePVC claim) r])"
      by blast
    have k: "kindsOf polls = replicate (length polls) KGetPVC"
      using kindsOf_polls [OF run(2)] .
    have r: "subseq (kindsOf rest) [KCreatePVC]"
      using run(4) by auto
    have "subseq ([KCreatePVC, KDeletePVC] @ kindsOf polls @ kindsOf rest) claimOrder"
      unfolding claimOrder_def k
      by (intro list_emb_append_mono subseq_replicate run(3) r) simp
    then show ?thesis
      by (intro exI [of _ "Event (CreatePVC claim) (Some e)
            # Event (DeletePVC (objNamespace rs) (objName rs)) d # polls @ rest"])
        (simp add: run(1) st1 logEvent_def)
  qed
qed

lemma replace_calls:
  assumes "replace retry env name target devPod st = Some (r, st')"
    and retry: "\<forall>s r' s'. retry s = Some (r', s') \<longrightarrow>
                  (\<exists>evs. trace s' = trace s @ evs \<and> subseq (kindsOf evs) R)"
  shows "\<exists>evs. trace st' = trace st @ evs \<and> subseq (kindsOf evs) (replaceOrder @ R)"
proof (cases "buildReplicaSet env name target devPod")
  case (Inl e)
  with assms(1) show ?thesis by (simp add: replace_def)
next
  case (Inr obj)
  obtain sr t st1 where sd: "scaleDownTarget env target st = ((sr, t), st1)"
    by (metis prod.exhaust)
  obtain evs1 where e1: "trace st1 = trace st @ evs1" "subseq (kindsOf evs1) [KPatchObject]"
    using scaleDownTarget_calls [of env target st] sd by auto
  show ?thesis
  proof (cases sr)
    case (Some e)
    with assms(1) Inr sd have "st' = st1" by (simp add: replace_def)
    moreover have "subseq (kindsOf evs1) (replaceOrder @ R)"
      using e1(2) by (simp add: replaceOrder_def subseq_one)
    ultimately show ?thesis using e1(1) by auto
  next
    case None
    let ?c = "createReplicaSet env (trace st1) obj"
    let ?st2 = "logEvent (CreateReplicaSet obj) (errOf ?c) st1"
    have pre: "subseq (kindsOf (evs1 @ [Event (CreateReplicaSet obj) (errOf ?c)]))
                 [KPatchObject, KCreateReplicaSet]"
      using e1(2) list_emb_append_mono [of "(=)" "kindsOf evs1" "[KPatchObject]"
          "[KCreateReplicaSet]" "[KCreateReplicaSet]"]
      by simp
    have tr2: "trace ?st2 = trace st @ (evs1 @ [Event (CreateReplicaSet obj) (errOf ?c)])"
      by (simp add: logEvent_def e1(1))
    show ?thesis
    proof (cases ?c)
      case cl: (Inl e)
      show ?thesis
      proof (cases "IsAlreadyExists e")
        case True
        with assms(1) Inr sd None cl have "retry ?st2 = Some (r, st')"
          by (simp add: replace_def callCreateReplicaSet_def Let_def)
        with retry obtain evs where
          ev: "trace st' = trace ?st2 @ evs" "subseq (kindsOf evs) R"
          by blast
        have p2: "subseq (kindsOf (evs1 @ [Event (CreateReplicaSet obj) (errOf ?c)])) replaceOrder"
          unfolding replaceOrder_def by (rule subseq_rev_drop_many [OF pre])
        have "subseq (kindsOf (evs1 @ [Event (CreateReplicaSet obj) (errOf ?c)]) @ kindsOf evs)
                (replaceOrder @ R)"
          by (rule list_emb_append_mono [OF p2 ev(2)])
        then show ?thesis
          by (intro exI [of _ "(evs1 @ [Event (CreateReplicaSet obj) (errOf ?c)]) @ evs"])
            (simp add: ev(1) tr2)
      next
        case False
        with assms(1) Inr sd None cl have "st' = ?st2"
          by (simp add: replace_def callCreateReplicaSet_def Let_def)
        moreover have "subseq (kindsOf (evs1 @ [Event (CreateReplicaSet obj) (errOf ?c)]))
                         (replaceOrder @ R)"
          unfolding replaceOrder_def append_assoc
          by (intro subseq_rev_drop_many pre)
        ultimately show ?thesis using tr2 by blast
      qed
    next
      case cr: (Inr replicaSet)
      with assms(1) Inr sd None have res: "st' = snd (ensureClaim env replicaSet devPod ?st2)"
        by (auto simp add: replace_def callCreateReplicaSet_def Let_def)
      obtain evs where ev: "trace st' = trace ?st2 @ evs" "subseq (kindsOf evs) claimOrder"
        using ensureClaim_calls [of env replicaSet devPod ?st2] res by auto
      have "subseq (kindsOf (evs1 @ [Event (CreateReplicaSet obj) (errOf ?c)]) @ kindsOf evs)
                ([KPatchObject, KCreateReplicaSet] @ claimOrder)"
        by (rule list_emb_append_mono [OF pre ev(2)])
      then have "subseq (kindsOf (evs1 @ [Event (CreateReplicaSet obj) (errOf ?c)]) @ kindsOf evs)
                (replaceOrder @ R)"
        unfolding replaceOrder_def by (rule subseq_rev_drop_many)
      then show ?thesis
        by (intro exI [of _ "(evs1 @ [Event (CreateReplicaSet obj) (errOf ?c)]) @ evs"])
          (simp add: ev(1) tr2)
    qed
  qed
qed

lemma recreate_calls:
  assumes "recreate retry env c devPod st = Some (r, st')"
    and retry: "\<forall>s r' s'. retry s = Some (r', s') \<longrightarrow>
                  (\<exists>evs. trace s' = trace s @ evs \<and> subseq (kindsOf evs) R)"
  shows "\<exists>evs. trace st' = trace st @ evs
           \<and> subseq (kindsOf evs) ([KFindTargetBySelector, KSaveCache] @ replaceOrder @ R)"
proof -
  let ?f = "findTargetBySelector env (trace st) devPod"
  let ?s1 = "logEvent (FindTargetBySelector devPod) (errOf ?f) st"
  have early: "st' = ?s1 \<Longrightarrow> ?thesis"
    by (intro exI [of _ "[Event (FindTargetBySelector devPod) (errOf ?f)]"])
      (simp add: logEvent_def)
  show ?thesis
  proof (cases ?f)
    case (Inl e)
    with assms(1) have "st' = ?s1"
      by (simp add: recreate_def callFindTargetBySelector_def Let_def)
    then show ?thesis by (rule early)
  next
    case (Inr found)
    show ?thesis
    proof (cases found)
      case None
      with Inr assms(1) have "st' = ?s1"
        by (simp add: recreate_def callFindTargetBySelector_def Let_def)
      then show ?thesis by (rule early)
    next
      case (Some target)
      let ?c' = "c\<lparr>cTargetKind := objKind target, cTargetName := objName target,
                      cReplicaSet := objName target @ ''-devspace''\<rparr>"
      let ?cache' = "(cache st)(cName c \<mapsto> ?c')"
      let ?found = "Event (FindTargetBySelector devPod) None"
      let ?r = "saveCache env (trace st @ [?found]) ?cache'"
      let ?st3 = "st\<lparr>cache := ?cache', trace := trace st @ [?found, Event (SaveCache ?cache') ?r]\<rparr>"
      have tgt: "?f = Inr (Some target)" using Inr Some by simp
      note rf = recreate_found [OF tgt, of retry c, unfolded Let_def]
      show ?thesis
      proof (cases ?r)
        case s: (Some e)
        with assms(1) have "st' = ?st3" by (auto simp add: rf)
        then show ?thesis
          by (intro exI [of _ "[?found, Event (SaveCache ?cache') ?r]"]) simp
      next
        case n: None
        with assms(1) have "replace retry env (objName target @ ''-devspace'') target devPod ?st3
                              = Some (r, st')"
          by (simp add: rf)
        from replace_calls [OF this retry] obtain evs where
          ev: "trace st' = trace ?st3 @ evs" "subseq (kindsOf evs) (replaceOrder @ R)"
          by blast
        have "subseq (kindsOf [?found, Event (SaveCache ?cache') ?r] @ kindsOf evs)
                ([KFindTargetBySelector, KSaveCache] @ replaceOrder @ R)"
          by (rule list_emb_append_mono [OF _ ev(2)]) simp
        then show ?thesis
          by (intro exI [of _ "[?found, Event (SaveCache ?cache') ?r] @ evs"]) (simp add: ev(1))
      qed
    qed
  qed
qed

lemma findReplaced_returns:
  assumes "findReplaced env devPod st = Inl (r, st')"
  shows "\<exists>evs. trace st' = trace st @ evs
          \<and> subseq (kindsOf evs)
               [KGetReplicaSet, KFindTargetByKindName, KDeleteReplicaSet, KPatchObject]"
proof -
  define c0 where "c0 = lookupDevPod env devPod st"
  show ?thesis
  proof (cases "cReplicaSet c0 \<noteq> []")
    case False
    with assms show ?thesis
      by (auto simp add: findReplaced_def Let_def c0_def)
  next
    case True
    let ?g = "getReplicaSet env (trace st) (cNamespace c0) (cName c0)"
    let ?s1 = "logEvent (GetReplicaSet (cNamespace c0) (cName c0)) (errOf ?g) st"
    have f: "findReplaced env devPod st =
       (case ?g of
          Inl e \<Rightarrow> if \<not> IsNotFound e then Inl (Some (Wrap e ''find devspace replica set''), ?s1)
                   else Inr (c0, ?s1)
        | Inr replicaSet \<Rightarrow>
            (case updateNeeded env replicaSet devPod ?s1 of
               ((recreateNeeded, Some e), st2) \<Rightarrow> Inl (Some e, st2)
             | ((recreateNeeded, None), st2) \<Rightarrow>
                 if \<not> recreateNeeded then Inl (None, st2) else Inr (c0, st2)))"
      using True
      by (simp add: findReplaced_def Let_def callGetReplicaSet_def c0_def [symmetric] split: sum.splits)
    show ?thesis
    proof (cases ?g)
      case (Inl e)
      with assms have "st' = ?s1"
        by (auto simp add: f split: if_splits)
      then show ?thesis by (simp add: logEvent_def)
    next
      case (Inr rs)
      obtain rc ur st2 where u: "updateNeeded env rs devPod ?s1 = ((rc, ur), st2)"
        by (metis prod.exhaust)
      with Inr assms have "st' = st2"
        by (auto simp add: f split: if_splits option.splits)
      with updateNeeded_calls [OF u] obtain evs where
        ev: "trace st' = trace ?s1 @ evs"
        "subseq (kindsOf evs) (if rc then [KFindTargetByKindName, KDeleteReplicaSet]
                else [KFindTargetByKindName, KPatchObject])"
        by blast
      have "subseq (kindsOf evs) [KFindTargetByKindName, KDeleteReplicaSet, KPatchObject]"
      proof (cases rc)
        case True
        with ev(2) show ?thesis
          using subseq_rev_drop_many [of "kindsOf evs" "[KFindTargetByKindName, KDeleteReplicaSet]"
              "[KPatchObject]"] by simp
      next
        case False
        have "subseq [KFindTargetByKindName, KPatchObject]
                [KFindTargetByKindName, KDeleteReplicaSet, KPatchObject]"
          by simp
        with False ev(2) show ?thesis
          using subseq_order.trans by fastforce
      qed
      then show ?thesis
        by (intro exI [of _ "Event (GetReplicaSet (cNamespace c0) (cName c0)) (errOf ?g) # evs"])
          (simp add: ev(1) logEvent_def)
    qed
  qed
qed

lemma early_order:
  "subseq [KGetReplicaSet, KFindTargetByKindName, KDeleteReplicaSet, KPatchObject] callOrder"
  by (simp add: callOrder_def replaceOrder_def)

lemma ReplacePodBody_calls:
  assumes "ReplacePodBody retry env devPod st = Some (r, st')"
    and retry: "\<forall>s r' s'. retry s = Some (r', s') \<longrightarrow>
                  (\<exists>evs. trace s' = trace s @ evs \<and> subseq (kindsOf evs) R)"
  shows "\<exists>evs. trace st' = trace st @ evs \<and> subseq (kindsOf evs) (callOrder @ R)"
proof (cases "findReplaced env devPod st")
  case (Inl res)
  with assms(1) have "findReplaced env devPod st = Inl (r, st')"
    by (simp add: ReplacePodBody_def)
  from findReplaced_returns [OF this] obtain evs where
    ev: "trace st' = trace st @ evs"
    "subseq (kindsOf evs) [KGetReplicaSet, KFindTargetByKindName, KDeleteReplicaSet, KPatchObject]"
    by blast
  have "subseq (kindsOf evs) callOrder"
    using ev(2) early_order subseq_order.trans by blast
  then have "subseq (kindsOf evs) (callOrder @ R)"
    by (rule subseq_rev_drop_many)
  with ev(1) show ?thesis by blast
next
  case (Inr p)
  obtain c st1 where p: "p = (c, st1)" by (cases p)
  from findReplaced_fallthrough [OF Inr [unfolded p]] obtain evs0 where
    e0: "trace st1 = trace st @ evs0"
    "subseq (kindsOf evs0) [KGetReplicaSet, KFindTargetByKindName, KDeleteReplicaSet]"
    by blast
  from assms(1) Inr p have "recreate retry env c devPod st1 = Some (r, st')"
    by (simp add: ReplacePodBody_def)
  from recreate_calls [OF this retry] obtain evs where
    ev: "trace st' = trace st1 @ evs"
    "subseq (kindsOf evs) ([KFindTargetBySelector, KSaveCache] @ replaceOrder @ R)"
    by blast
  have "subseq (kindsOf evs0 @ kindsOf evs)
          ([KGetReplicaSet, KFindTargetByKindName, KDeleteReplicaSet]
           @ [KFindTargetBySelector, KSaveCache] @ replaceOrder @ R)"
    by (rule list_emb_append_mono [OF e0(2) ev(2)])
  then have "subseq (kindsOf (evs0 @ evs)) (callOrder @ R)"
    by (simp add: callOrder_def)
  then show ?thesis
    by (intro exI [of _ "evs0 @ evs"]) (simp add: ev(1) e0(1))
qed

lemma ReplacePod_calls:
  "ReplacePod n env devPod st = Some (r, st') \<Longrightarrow>
   \<exists>evs. trace st' = trace st @ evs \<and> subseq (kindsOf evs) (concat (replicate n callOrder))"
proof (induction n arbitrary: st r st')
  case 0
  then show ?case by simp
next
  case (Suc n)
  from Suc.prems have "ReplacePodBody (ReplacePod n env devPod) env devPod st = Some (r, st')"
    by simp
  moreover have "\<forall>s r' s'. ReplacePod n env devPod s = Some (r', s') \<longrightarrow>
          (\<exists>evs. trace s' = trace s @ evs \<and> subseq (kindsOf evs) (concat (replicate n callOrder)))"
    using Suc.IH by blast
  ultimately show ?case
    using ReplacePodBody_calls [of "ReplacePod n env devPod" env devPod st r st'
        "concat (replicate n callOrder)"]
    by simp
qed

subsection \<open>The cache is saved before the replacement is made\<close>

lemma no_save:
  assumes "subseq (kindsOf evs) ks" and "KSaveCache \<notin> set ks"
  shows "Event (SaveCache m) x \<notin> set evs"
proof
  assume "Event (SaveCache m) x \<in> set evs"
  then have "KSaveCache \<in> set (kindsOf evs)"
    by (force simp add: kindsOf_def)
  with list_emb_set [OF assms(1)] assms(2) show False by blast
qed

lemma replace_alone:
  assumes "replace retry env name target devPod st = Some (r, st')"
  shows "(\<exists>evs. trace st' = trace st @ evs \<and> subseq (kindsOf evs) replaceOrder)
     \<or> (\<exists>pre s2. trace s2 = trace st @ pre \<and> subseq (kindsOf pre) replaceOrder
           \<and> retry s2 = Some (r, st'))"
proof (cases "\<exists>obj t s1 e. buildReplicaSet env name target devPod = Inr obj
          \<and> scaleDownTarget env target st = ((None, t), s1)
          \<and> createReplicaSet env (trace s1) obj = Inl e \<and> IsAlreadyExists e")
  case True
  then obtain obj t s1 e where c: "buildReplicaSet env name target devPod = Inr obj"
    "scaleDownTarget env target st = ((None, t), s1)"
    "createReplicaSet env (trace s1) obj = Inl e" "IsAlreadyExists e"
    by blast
  let ?s2 = "logEvent (CreateReplicaSet obj) (Some e) s1"
  obtain evs1 where e1: "trace s1 = trace st @ evs1" "subseq (kindsOf evs1) [KPatchObject]"
    using scaleDownTarget_calls [of env target st] c(2) by auto
  have "subseq (kindsOf evs1 @ [KCreateReplicaSet]) ([KPatchObject] @ [KCreateReplicaSet])"
    by (rule list_emb_append_mono [OF e1(2)]) simp
  then have "subseq (kindsOf (evs1 @ [Event (CreateReplicaSet obj) (Some e)])) replaceOrder"
    unfolding replaceOrder_def using subseq_rev_drop_many [of _ "[KPatchObject, KCreateReplicaSet]" claimOrder]
    by simp
  moreover have "trace ?s2 = trace st @ evs1 @ [Event (CreateReplicaSet obj) (Some e)]"
    by (simp add: logEvent_def e1(1))
  moreover have "retry ?s2 = Some (r, st')"
    using replace_conflict [OF c, of retry] assms by simp
  ultimately show ?thesis by blast
next
  case False
  then have "replace retry env name target devPod st = replace (\<lambda>s. None) env name target devPod st"
    by (auto simp add: replace_def callCreateReplicaSet_def Let_def
        split: sum.splits prod.splits option.splits)
  with assms have "replace (\<lambda>s. None) env name target devPod st = Some (r, st')"
    by simp
  from replace_calls [OF this, of "[]"] show ?thesis by simp
qed


lemma failed_save_append:
  assumes "\<forall>m e. Event (SaveCache m) (Some e) \<notin> set pre"
    and "(\<forall>m e. Event (SaveCache m) (Some e) \<in> set evs \<longrightarrow> r = Some e \<and> last evs = Event (SaveCache m) (Some e))"
  shows "(\<forall>m e. Event (SaveCache m) (Some e) \<in> set (pre @ evs) \<longrightarrow> r = Some e \<and> last (pre @ evs) = Event (SaveCache m) (Some e))"
proof (intro allI impI)
  fix m e
  assume "Event (SaveCache m) (Some e) \<in> set (pre @ evs)"
  with assms(1) have in_evs: "Event (SaveCache m) (Some e) \<in> set evs" by simp
  with assms(2) have "r = Some e" "last evs = Event (SaveCache m) (Some e)" by blast+
  moreover from in_evs have "evs \<noteq> []" by auto
  ultimately show "r = Some e \<and> last (pre @ evs) = Event (SaveCache m) (Some e)" by simp
qed

lemma replace_saves:
  assumes "replace retry env name target devPod st = Some (r, st')"
    and retry: "\<forall>s r' s'. retry s = Some (r', s') \<longrightarrow> (\<exists>evs. trace s' = trace s @ evs \<and> (\<forall>m e. Event (SaveCache m) (Some e) \<in> set evs \<longrightarrow> r' = Some e \<and> last evs = Event (SaveCache m) (Some e)))"
  shows "\<exists>evs. trace st' = trace st @ evs \<and> (\<forall>m e. Event (SaveCache m) (Some e) \<in> set evs \<longrightarrow> r = Some e \<and> last evs = Event (SaveCache m) (Some e))"
proof -
  have ns: "KSaveCache \<notin> set replaceOrder"
    by (simp add: replaceOrder_def claimOrder_def)
  from replace_alone [OF assms(1)] show ?thesis
  proof
    assume "\<exists>evs. trace st' = trace st @ evs \<and> subseq (kindsOf evs) replaceOrder"
    then obtain evs where ev: "trace st' = trace st @ evs" "subseq (kindsOf evs) replaceOrder"
      by blast
    from no_save [OF ev(2) ns] ev(1) show ?thesis by blast
  next
    assume "\<exists>pre s2. trace s2 = trace st @ pre \<and> subseq (kindsOf pre) replaceOrder
              \<and> retry s2 = Some (r, st')"
    then obtain pre s2 where p: "trace s2 = trace st @ pre" "subseq (kindsOf pre) replaceOrder"
      "retry s2 = Some (r, st')"
      by blast
    from retry p(3) obtain evs where ev: "trace st' = trace s2 @ evs" "(\<forall>m e. Event (SaveCache m) (Some e) \<in> set evs \<longrightarrow> r = Some e \<and> last evs = Event (SaveCache m) (Some e))"
      by blast
    have "\<forall>m e. Event (SaveCache m) (Some e) \<notin> set pre"
      using no_save [OF p(2) ns] by blast
    from failed_save_append [OF this ev(2)] have "(\<forall>m e. Event (SaveCache m) (Some e) \<in> set (pre @ evs) \<longrightarrow> r = Some e \<and> last (pre @ evs) = Event (SaveCache m) (Some e))" .
    moreover have "trace st' = trace st @ (pre @ evs)"
      by (simp add: ev(1) p(1))
    ultimately show ?thesis by blast
  qed
qed

lemma recreate_unresolved:
  assumes "findTargetBySelector env (trace st1) devPod \<noteq> Inr (Some target)"
    and "\<forall>t. findTargetBySelector env (trace st1) devPod \<noteq> Inr (Some t)"
    and "recreate retry env c devPod st1 = Some (r, st')"
  shows "\<exists>x. trace st' = trace st1 @ [Event (FindTargetBySelector devPod) x]"
  using assms
  by (auto simp add: recreate_def callFindTargetBySelector_def logEvent_def Let_def
      split: sum.splits option.splits)

lemma recreate_saves:
  assumes "recreate retry env c devPod st1 = Some (r, st')"
    and retry: "\<forall>s r' s'. retry s = Some (r', s') \<longrightarrow> (\<exists>evs. trace s' = trace s @ evs \<and> (\<forall>m e. Event (SaveCache m) (Some e) \<in> set evs \<longrightarrow> r' = Some e \<and> last evs = Event (SaveCache m) (Some e)))"
  shows "\<exists>evs. trace st' = trace st1 @ evs \<and> (\<forall>m e. Event (SaveCache m) (Some e) \<in> set evs \<longrightarrow> r = Some e \<and> last evs = Event (SaveCache m) (Some e))"
proof (cases "\<exists>t. findTargetBySelector env (trace st1) devPod = Inr (Some t)")
  case False
  with recreate_unresolved [OF _ _ assms(1)] obtain x where
    "trace st' = trace st1 @ [Event (FindTargetBySelector devPod) x]"
    by blast
  then show ?thesis by auto
next
  case True
  then obtain target where t: "findTargetBySelector env (trace st1) devPod = Inr (Some target)"
    by blast
  let ?cache' = "(cache st1)(cName c \<mapsto> replacedEntry c target)"
  let ?found = "Event (FindTargetBySelector devPod) None"
  let ?x = "saveCache env (trace st1 @ [?found]) ?cache'"
  let ?st3 = "st1\<lparr>cache := ?cache', trace := trace st1 @ [?found, Event (SaveCache ?cache') ?x]\<rparr>"
  have rec: "recreate retry env c devPod st1 =
      (case ?x of Some e \<Rightarrow> Some (Some e, ?st3)
       | None \<Rightarrow> replace retry env (objName target @ ''-devspace'') target devPod ?st3)"
    unfolding replacedEntry_def by (simp add: recreate_found [OF t] Let_def)
  show ?thesis
  proof (cases ?x)
    case (Some e0)
    with rec assms(1) have "r = Some e0" "st' = ?st3" by simp_all
    then have "trace st' = trace st1 @ [?found, Event (SaveCache ?cache') (Some e0)]"
      using Some by simp
    moreover have "(\<forall>m e. Event (SaveCache m) (Some e) \<in> set [?found, Event (SaveCache ?cache') (Some e0)] \<longrightarrow> r = Some e \<and> last [?found, Event (SaveCache ?cache') (Some e0)] = Event (SaveCache m) (Some e))"
      using \<open>r = Some e0\<close> by auto
    ultimately show ?thesis by blast
  next
    case None
    with rec assms(1) have
      "replace retry env (objName target @ ''-devspace'') target devPod ?st3 = Some (r, st')"
      by simp
    from replace_saves [OF this retry] obtain evs where
      ev: "trace st' = trace ?st3 @ evs" "(\<forall>m e. Event (SaveCache m) (Some e) \<in> set evs \<longrightarrow> r = Some e \<and> last evs = Event (SaveCache m) (Some e))"
      by blast
    have "\<forall>m e. Event (SaveCache m) (Some e) \<notin> set [?found, Event (SaveCache ?cache') ?x]"
      using None by simp
    from failed_save_append [OF this ev(2)]
    have "(\<forall>m e. Event (SaveCache m) (Some e) \<in> set ([?found, Event (SaveCache ?cache') ?x] @ evs) \<longrightarrow> r = Some e \<and> last ([?found, Event (SaveCache ?cache') ?x] @ evs) = Event (SaveCache m) (Some e))" .
    moreover have "trace st' = trace st1 @ ([?found, Event (SaveCache ?cache') ?x] @ evs)"
      using ev(1) by simp
    ultimately show ?thesis by blast
  qed
qed

lemma ReplacePodBody_saves:
  assumes "ReplacePodBody retry env devPod st = Some (r, st')"
    and retry: "\<forall>s r' s'. retry s = Some (r', s') \<longrightarrow> (\<exists>evs. trace s' = trace s @ evs \<and> (\<forall>m e. Event (SaveCache m) (Some e) \<in> set evs \<longrightarrow> r' = Some e \<and> last evs = Event (SaveCache m) (Some e)))"
  shows "\<exists>evs. trace st' = trace st @ evs \<and> (\<forall>m e. Event (SaveCache m) (Some e) \<in> set evs \<longrightarrow> r = Some e \<and> last evs = Event (SaveCache m) (Some e))"
proof (cases "findReplaced env devPod st")
  case (Inl res)
  with assms(1) have "findReplaced env devPod st = Inl (r, st')"
    by (simp add: ReplacePodBody_def)
  from findReplaced_returns [OF this] obtain evs where
    ev: "trace st' = trace st @ evs"
    "subseq (kindsOf evs) [KGetReplicaSet, KFindTargetByKindName, KDeleteReplicaSet, KPatchObject]"
    by blast
  from no_save [OF ev(2)] ev(1) show ?thesis by auto
next
  case (Inr p)
  obtain c st1 where p: "p = (c, st1)" by (cases p)
  from findReplaced_fallthrough [OF Inr [unfolded p]] obtain evs0 where
    e0: "trace st1 = trace st @ evs0"
    "subseq (kindsOf evs0) [KGetReplicaSet, KFindTargetByKindName, KDeleteReplicaSet]"
    by blast
  from assms(1) Inr p have "recreate retry env c devPod st1 = Some (r, st')"
    by (simp add: ReplacePodBody_def)
  from recreate_saves [OF this retry] obtain evs where
    ev: "trace st' = trace st1 @ evs" "(\<forall>m e. Event (SaveCache m) (Some e) \<in> set evs \<longrightarrow> r = Some e \<and> last evs = Event (SaveCache m) (Some e))"
    by blast
  have "\<forall>m e. Event (SaveCache m) (Some e) \<notin> set evs0"
    using no_save [OF e0(2)] by auto
  from failed_save_append [OF this ev(2)] have "(\<forall>m e. Event (SaveCache m) (Some e) \<in> set (evs0 @ evs) \<longrightarrow> r = Some e \<and> last (evs0 @ evs) = Event (SaveCache m) (Some e))" .
  moreover have "trace st' = trace st @ (evs0 @ evs)"
    by (simp add: ev(1) e0(1))
  ultimately show ?thesis by blast
qed

lemma ReplacePod_saves:
  "ReplacePod n env devPod st = Some (r, st') \<Longrightarrow>
   \<exists>evs. trace st' = trace st @ evs \<and> (\<forall>m e. Event (SaveCache m) (Some e) \<in> set evs \<longrightarrow> r = Some e \<and> last evs = Event (SaveCache m) (Some e))"
proof (induction n arbitrary: st r st')
  case 0
  then show ?case by simp
next
  case (Suc n)
  from Suc.prems have "ReplacePodBody (ReplacePod n env devPod) env devPod st = Some (r, st')"
    by simp
  moreover have "\<forall>s r' s'. ReplacePod n env devPod s = Some (r', s') \<longrightarrow> (\<exists>evs. trace s' = trace s @ evs \<and> (\<forall>m e. Event (SaveCache m) (Some e) \<in> set evs \<longrightarrow> r' = Some e \<and> last evs = Event (SaveCache m) (Some e)))"
    using Suc.IH by blast
  ultimately show ?case
    by (rule ReplacePodBody_saves)
qed


text \<open>
  C4, amended. When an invocation of \<^verbatim>\<open>ReplacePod\<close> falls through to the full
  replacement and the selector resolves a target, the calls it has made so far are at
  most the fetch of the replacement, the look-up of its target and the deletion of the
  stale replacement. The cache entry with the target's kind and name and the replacement
  name \<open><targetName>-devspace\<close> is then set and saved. If saving fails, the invocation
  returns that error and makes no further call: no scale-down patch and no creation of its
  own. If saving succeeds, everything else is what \<open>replace\<close> does from the state
  after the save. Whenever the whole call returns, a save that fails later on, in an
  invocation that \<open>replace\<close> entered after a creation conflict, is the last call of
  the whole call, and its error is the result.
\<close>

theorem ReplacePod_saves_before_replacing:
  assumes "findReplaced env devPod st = Inr (c, st1)"
    and "findTargetBySelector env (trace st1) devPod = Inr (Some target)"
  shows "let cache' = (cache st)(cName c \<mapsto> replacedEntry c target);
             found = Event (FindTargetBySelector devPod) None;
             x = saveCache env (trace st1 @ [found]) cache';
             st3 = st1\<lparr>cache := cache', trace := trace st1 @ [found, Event (SaveCache cache') x]\<rparr>
         in (\<exists>early. trace st1 = trace st @ early
               \<and> subseq (kindsOf early) [KGetReplicaSet, KFindTargetByKindName, KDeleteReplicaSet])
            \<and> (case x of
                  Some e \<Rightarrow> ReplacePod (Suc n) env devPod st = Some (Some e, st3)
                | None \<Rightarrow>
                    ReplacePod (Suc n) env devPod st =
                      replace (ReplacePod n env devPod) env (objName target @ ''-devspace'')
                        target devPod st3)
            \<and> (\<forall>r st'. ReplacePod (Suc n) env devPod st = Some (r, st') \<longrightarrow>
                  (\<exists>rest. trace st' = trace st3 @ rest
                     \<and> (x \<noteq> None \<longrightarrow> rest = [])
                     \<and> (\<forall>m e. Event (SaveCache m) (Some e) \<in> set rest \<longrightarrow>
                           r = Some e \<and> last rest = Event (SaveCache m) (Some e))))"
proof -
  let ?cache' = "(cache st)(cName c \<mapsto> replacedEntry c target)"
  let ?found = "Event (FindTargetBySelector devPod) None"
  let ?x = "saveCache env (trace st1 @ [?found]) ?cache'"
  let ?st3 = "st1\<lparr>cache := ?cache', trace := trace st1 @ [?found, Event (SaveCache ?cache') ?x]\<rparr>"
  from findReplaced_fallthrough [OF assms(1)] have
    same: "cache st1 = cache st"
    and evs: "\<exists>evs. trace st1 = trace st @ evs
               \<and> subseq (kindsOf evs) [KGetReplicaSet, KFindTargetByKindName, KDeleteReplicaSet]"
    by blast+
  have "ReplacePod (Suc n) env devPod st = recreate (ReplacePod n env devPod) env c devPod st1"
    using assms(1) by (simp add: ReplacePodBody_def)
  then have run: "ReplacePod (Suc n) env devPod st =
      (case ?x of Some e \<Rightarrow> Some (Some e, ?st3)
       | None \<Rightarrow> replace (ReplacePod n env devPod) env (objName target @ ''-devspace'')
                    target devPod ?st3)"
    unfolding replacedEntry_def by (simp add: recreate_found [OF assms(2)] same Let_def)
  have order: "case ?x of
        Some e \<Rightarrow> ReplacePod (Suc n) env devPod st = Some (Some e, ?st3)
      | None \<Rightarrow> ReplacePod (Suc n) env devPod st =
                  replace (ReplacePod n env devPod) env (objName target @ ''-devspace'')
                    target devPod ?st3"
    using run by (simp split: option.splits)
  have later: "\<exists>rest. trace st' = trace ?st3 @ rest
                 \<and> (?x \<noteq> None \<longrightarrow> rest = [])
                 \<and> (\<forall>m e. Event (SaveCache m) (Some e) \<in> set rest \<longrightarrow>
                       r = Some e \<and> last rest = Event (SaveCache m) (Some e))"
    if ret: "ReplacePod (Suc n) env devPod st = Some (r, st')" for r st'
  proof (cases ?x)
    case (Some e0)
    with run ret have "st' = ?st3" by auto
    then show ?thesis using Some by simp
  next
    case None
    with run ret have
      "replace (ReplacePod n env devPod) env (objName target @ ''-devspace'') target devPod ?st3
         = Some (r, st')"
      by simp
    moreover have "\<forall>s r' s'. ReplacePod n env devPod s = Some (r', s') \<longrightarrow>
        (\<exists>evs. trace s' = trace s @ evs
           \<and> (\<forall>m e. Event (SaveCache m) (Some e) \<in> set evs \<longrightarrow>
                 r' = Some e \<and> last evs = Event (SaveCache m) (Some e)))"
      using ReplacePod_saves by blast
    ultimately obtain rest where "trace st' = trace ?st3 @ rest"
      "\<forall>m e. Event (SaveCache m) (Some e) \<in> set rest \<longrightarrow>
         r = Some e \<and> last rest = Event (SaveCache m) (Some e)"
      using replace_saves by blast
    with None show ?thesis by blast
  qed
  show ?thesis
    unfolding Let_def using evs order later by blast
qed

text \<open>
  C4, as stated, fails: the name of the replacement is taken, so the first invocation
  saves the cache, scales the target down and fails to create the replacement; the
  invocation entered on the conflict finds no replacement under the name of the dev pod,
  saves the cache again, and this time saving fails. \<^verbatim>\<open>ReplacePod\<close> returns the
  error of the save after the target was patched and the creation attempted.
\<close>

theorem ReplacePod_save_failure_counterexample:
  "returned (ReplacePod 2 exEnvSaveFailsOnRetry exDevPod exState)
     = Some (Some (ApiError ''cache not writable''))
   \<and> outcomes (ReplacePod 2 exEnvSaveFailsOnRetry exDevPod exState)
     = [(KFindTargetBySelector, None), (KSaveCache, None), (KPatchObject, None),
        (KCreateReplicaSet, Some AlreadyExists), (KGetReplicaSet, Some NotFound),
        (KFindTargetBySelector, None), (KSaveCache, Some (ApiError ''cache not writable''))]"
  by code_simp

theorem ReplacePod_saves_before_replacing_witness:
  "findReplaced exEnvSaveFails exDevPodSameName exStateReplaced
     = Inr (exCacheEntry,
            exStateReplaced\<lparr>trace :=
              [Event (GetReplicaSet ''dev'' ''api-deploy-devspace'') None,
               Event (DeleteReplicaSet ''dev'' ''api-deploy-devspace'') None]\<rparr>)
   \<and> returned (ReplacePod 1 exEnvSaveFails exDevPodSameName exStateReplaced)
       = Some (Some (ApiError ''cache not writable''))
   \<and> callsMade (ReplacePod 1 exEnvSaveFails exDevPodSameName exStateReplaced)
       = [KGetReplicaSet, KDeleteReplicaSet, KFindTargetBySelector, KSaveCache]
   \<and> findReplaced exEnv exDevPod exState
       = Inr (zeroDevPodCache\<lparr>cName := ''api'', cNamespace := ''dev''\<rparr>, exState)
   \<and> returned (ReplacePod 1 exEnv exDevPod exState) = Some None
   \<and> callsMade (ReplacePod 1 exEnv exDevPod exState)
       = [KFindTargetBySelector, KSaveCache, KPatchObject, KCreateReplicaSet]
   \<and> findReplaced exEnvSaveFailsOnRetry exDevPod exState
       = Inr (zeroDevPodCache\<lparr>cName := ''api'', cNamespace := ''dev''\<rparr>, exState)
   \<and> returned (ReplacePod 2 exEnvSaveFailsOnRetry exDevPod exState)
       = Some (Some (ApiError ''cache not writable''))
   \<and> callsMade (ReplacePod 2 exEnvSaveFailsOnRetry exDevPod exState)
       = [KFindTargetBySelector, KSaveCache, KPatchObject, KCreateReplicaSet, KGetReplicaSet,
          KFindTargetBySelector, KSaveCache]"
proof -
  let ?st1 = "exStateReplaced\<lparr>trace :=
              [Event (GetReplicaSet ''dev'' ''api-deploy-devspace'') None,
               Event (DeleteReplicaSet ''dev'' ''api-deploy-devspace'') None]\<rparr>"
  let ?c = "zeroDevPodCache\<lparr>cName := ''api'', cNamespace := ''dev''\<rparr>"
  have f1: "findReplaced exEnvSaveFails exDevPodSameName exStateReplaced = Inr (exCacheEntry, ?st1)"
    by (simp add: findReplaced_def lookupDevPod_def GetDevPod_def callGetReplicaSet_def
        updateNeeded_def deleteReplicaSet_def logEvent_def errOf_def Let_def
        exEnvSaveFails_def exEnv_def exGetUnmanaged_def exUnmanaged_def exReplacement_def
        exBuild_def exDeployment_def exDevPodSameName_def exDevPod_def exStateReplaced_def
        exCacheEntry_def)
  have t1: "findTargetBySelector exEnvSaveFails (trace ?st1) exDevPodSameName = Inr (Some exDeployment)"
    by (simp add: exEnvSaveFails_def exEnv_def)
  have f2: "findReplaced exEnv exDevPod exState = Inr (?c, exState)"
    by (simp add: findReplaced_def lookupDevPod_def GetDevPod_def zeroDevPodCache_def Let_def
        exDevPod_def exState_def)
  have t2: "findTargetBySelector exEnv (trace exState) exDevPod = Inr (Some exDeployment)"
    by (simp add: exEnv_def)
  have f3: "findReplaced exEnvSaveFailsOnRetry exDevPod exState = Inr (?c, exState)"
    by (simp add: findReplaced_def lookupDevPod_def GetDevPod_def zeroDevPodCache_def Let_def
        exDevPod_def exState_def)
  have t3: "findTargetBySelector exEnvSaveFailsOnRetry (trace exState) exDevPod
              = Inr (Some exDeployment)"
    by (simp add: exEnvSaveFailsOnRetry_def exEnv_def)
  note fails = ReplacePod_saves_before_replacing [OF f1 t1, where n = 0]
  note works = ReplacePod_saves_before_replacing [OF f2 t2, where n = 0]
  note again = ReplacePod_saves_before_replacing [OF f3 t3, where n = 1]
  have e1: "returned (ReplacePod 1 exEnvSaveFails exDevPodSameName exStateReplaced)
       = Some (Some (ApiError ''cache not writable''))"
    by code_simp
  have e2: "callsMade (ReplacePod 1 exEnvSaveFails exDevPodSameName exStateReplaced)
       = [KGetReplicaSet, KDeleteReplicaSet, KFindTargetBySelector, KSaveCache]"
    by code_simp
  have e3: "returned (ReplacePod 1 exEnv exDevPod exState) = Some None"
    by code_simp
  have e4: "callsMade (ReplacePod 1 exEnv exDevPod exState)
       = [KFindTargetBySelector, KSaveCache, KPatchObject, KCreateReplicaSet]"
    by code_simp
  have e5: "returned (ReplacePod 2 exEnvSaveFailsOnRetry exDevPod exState)
       = Some (Some (ApiError ''cache not writable''))"
    by code_simp
  have e6: "callsMade (ReplacePod 2 exEnvSaveFailsOnRetry exDevPod exState)
       = [KFindTargetBySelector, KSaveCache, KPatchObject, KCreateReplicaSet, KGetReplicaSet,
          KFindTargetBySelector, KSaveCache]"
    by code_simp
  show ?thesis
    using fails works again f1 f2 f3 e1 e2 e3 e4 e5 e6 by blast
qed

subsection \<open>The retry after a creation conflict\<close>

lemma scaleDown_scaled:
  "scaleDownTarget env exScaledDeployment s
     = ((None, exScaledDeployment\<lparr>objAnnotations := Some (annotationsOf exScaledDeployment)\<rparr>), s)"
proof -
  have "goType exScaledDeployment \<noteq> OtherT" "replicaCount exScaledDeployment = 0"
    by (simp_all add: exScaledDeployment_def exDeployment_def replicaCount_def)
  then show ?thesis
    by (simp add: scaleDownTarget_case scaleDownCase_zero)
qed

lemma replace_conflicts:
  "\<exists>s'. creations s' = Suc (creations s)
     \<and> replace retry (exEnvConflicts k) name exScaledDeployment exDevPod s
         = (if creations s < k then retry s' else Some (None, s'))"
proof -
  let ?obj = "exBuild name exScaledDeployment exDevPod"
  let ?a = "createReplicaSet (exEnvConflicts k) (trace s) ?obj"
  let ?s' = "logEvent (CreateReplicaSet ?obj) (errOf ?a) s"
  have b: "buildReplicaSet (exEnvConflicts k) name exScaledDeployment exDevPod = Inr ?obj"
    by (simp add: exEnvConflicts_def exEnv_def)
  have a: "?a = (if creations s < k then Inl AlreadyExists else Inr ?obj)"
    by (simp add: exEnvConflicts_def creations_def)
  have np: "\<not> hasPersistPath exDevPod"
    by (simp add: hasPersistPath_def exDevPod_def)
  have c: "creations ?s' = Suc (creations s)"
    by (simp add: creations_def logEvent_def)
  have "replace retry (exEnvConflicts k) name exScaledDeployment exDevPod s
         = (if creations s < k then retry ?s' else Some (None, ?s'))"
    using np by (simp add: replace_def b scaleDown_scaled callCreateReplicaSet_def a errOf_def
        ensureClaim_def Let_def)
  with c show ?thesis by blast
qed

lemma findReplaced_conflicts:
  "\<exists>c s1. findReplaced (exEnvConflicts k) exDevPod st = Inr (c, s1) \<and> creations s1 = creations st"
proof -
  define c0 where "c0 = lookupDevPod (exEnvConflicts k) exDevPod st"
  have g: "getReplicaSet (exEnvConflicts k) tr ns n = Inl NotFound" for tr ns n
    by (simp add: exEnvConflicts_def exEnv_def)
  show ?thesis
  proof (cases "cReplicaSet c0 \<noteq> []")
    case False
    then have "findReplaced (exEnvConflicts k) exDevPod st = Inr (c0, st)"
      by (simp add: findReplaced_def Let_def c0_def)
    then show ?thesis by blast
  next
    case True
    let ?s1 = "logEvent (GetReplicaSet (cNamespace c0) (cName c0)) (Some NotFound) st"
    from True have "findReplaced (exEnvConflicts k) exDevPod st = Inr (c0, ?s1)"
      by (simp add: findReplaced_def Let_def c0_def [symmetric] callGetReplicaSet_def g errOf_def)
    moreover have "creations ?s1 = creations st"
      by (simp add: creations_def logEvent_def)
    ultimately show ?thesis by blast
  qed
qed

lemma body_conflicts:
  "\<exists>s'. creations s' = Suc (creations st)
     \<and> ReplacePodBody retry (exEnvConflicts k) exDevPod st
         = (if creations st < k then retry s' else Some (None, s'))"
proof -
  obtain c s1 where f: "findReplaced (exEnvConflicts k) exDevPod st = Inr (c, s1)"
    and c1: "creations s1 = creations st"
    using findReplaced_conflicts by blast
  have t: "findTargetBySelector (exEnvConflicts k) (trace s1) exDevPod = Inr (Some exScaledDeployment)"
    by (simp add: exEnvConflicts_def)
  have sv: "saveCache (exEnvConflicts k) tr m = None" for tr m
    by (simp add: exEnvConflicts_def exEnv_def)
  let ?c' = "c\<lparr>cTargetKind := objKind exScaledDeployment, cTargetName := objName exScaledDeployment,
                  cReplicaSet := objName exScaledDeployment @ ''-devspace''\<rparr>"
  let ?cache' = "(cache s1)(cName c \<mapsto> ?c')"
  let ?s3 = "s1\<lparr>cache := ?cache',
                 trace := trace s1 @ [Event (FindTargetBySelector exDevPod) None,
                                      Event (SaveCache ?cache') None]\<rparr>"
  have r: "recreate retry (exEnvConflicts k) c exDevPod s1
             = replace retry (exEnvConflicts k) (objName exScaledDeployment @ ''-devspace'')
                 exScaledDeployment exDevPod ?s3"
    by (simp add: recreate_found [OF t] sv Let_def)
  have c3: "creations ?s3 = creations st"
    using c1 by (simp add: creations_def)
  from replace_conflicts [of ?s3 retry k "objName exScaledDeployment @ ''-devspace''"]
  show ?thesis
    by (simp add: ReplacePodBody_def f r c3)
qed

lemma ReplacePod_conflicts:
  "creations st + d = k \<Longrightarrow>
   returned (ReplacePod d (exEnvConflicts k) exDevPod st) = None
   \<and> returned (ReplacePod (Suc d) (exEnvConflicts k) exDevPod st) = Some None"
proof (induction d arbitrary: st)
  case 0
  obtain s' where "ReplacePodBody (ReplacePod 0 (exEnvConflicts k) exDevPod) (exEnvConflicts k) exDevPod st
         = (if creations st < k then ReplacePod 0 (exEnvConflicts k) exDevPod s' else Some (None, s'))"
    using body_conflicts by blast
  with 0 show ?case by (simp add: returned_def)
next
  case (Suc d)
  obtain s1 where s1: "creations s1 = Suc (creations st)"
    "ReplacePodBody (ReplacePod d (exEnvConflicts k) exDevPod) (exEnvConflicts k) exDevPod st
         = (if creations st < k then ReplacePod d (exEnvConflicts k) exDevPod s1 else Some (None, s1))"
    using body_conflicts by blast
  obtain s2 where s2: "creations s2 = Suc (creations st)"
    "ReplacePodBody (ReplacePod (Suc d) (exEnvConflicts k) exDevPod) (exEnvConflicts k) exDevPod st
         = (if creations st < k then ReplacePod (Suc d) (exEnvConflicts k) exDevPod s2 else Some (None, s2))"
    using body_conflicts by blast
  from Suc.prems have lt: "creations st < k" by simp
  have i1: "creations s1 + d = k" and i2: "creations s2 + d = k"
    using Suc.prems s1(1) s2(1) by simp_all
  have "returned (ReplacePod (Suc d) (exEnvConflicts k) exDevPod st) = None"
    using Suc.IH [OF i1] lt s1(2) by simp
  moreover have "returned (ReplacePod (Suc (Suc d)) (exEnvConflicts k) exDevPod st) = Some None"
    using Suc.IH [OF i2] lt s2(2) by simp
  ultimately show ?case by simp
qed

lemma callOrder_once:
  "kind \<noteq> KCreatePVC \<and> kind \<noteq> KGetPVC \<Longrightarrow> count_list callOrder kind = 1"
  by (cases kind) (simp_all add: callOrder_def replaceOrder_def claimOrder_def count_list_append)

text \<open>
  C3, as stated, fails: when the creation of the replacement conflicts twice, the second
  invocation of \<^verbatim>\<open>ReplacePod\<close> calls \<^verbatim>\<open>ReplacePod\<close> again, so two nested
  invocations do not return and the third one does.
\<close>

theorem ReplacePod_retry_depth_counterexample:
  "returned (ReplacePod 2 (exEnvConflicts 2) exDevPod exState) = None
   \<and> returned (ReplacePod 3 (exEnvConflicts 2) exDevPod exState) = Some None
   \<and> callsMade (ReplacePod 3 (exEnvConflicts 2) exDevPod exState)
       = [KFindTargetBySelector, KSaveCache, KCreateReplicaSet,
          KGetReplicaSet, KFindTargetBySelector, KSaveCache, KCreateReplicaSet,
          KGetReplicaSet, KFindTargetBySelector, KSaveCache, KCreateReplicaSet]"
  by code_simp

text \<open>
  C3, amended. When the target was scaled down and the creation of the replacement fails
  with already-exists, \<open>replace\<close> calls \<^verbatim>\<open>ReplacePod\<close> again and returns whatever
  that call returns. Nothing bounds the depth: in a cluster where the creation conflicts
  \<open>k\<close> times, \<open>k\<close> nested invocations do not return and one more does. Whatever the
  cluster answers, a run of at most \<open>n\<close> nested invocations makes its calls in the fixed
  order of \<open>callOrder\<close>, invocation after invocation, and in that order every call
  but the creation of the claim and the poll for the old claim occurs once.
\<close>

theorem ReplacePod_retry_unbounded:
  "(\<forall>obj t st1 e.
      buildReplicaSet env name target devPod = Inr obj
      \<and> scaleDownTarget env target st = ((None, t), st1)
      \<and> createReplicaSet env (trace st1) obj = Inl e \<and> IsAlreadyExists e \<longrightarrow>
      replace retry env name target devPod st
        = retry (logEvent (CreateReplicaSet obj) (Some e) st1))
   \<and> returned (ReplacePod k (exEnvConflicts k) exDevPod exState) = None
   \<and> returned (ReplacePod (Suc k) (exEnvConflicts k) exDevPod exState) = Some None
   \<and> (\<forall>r st'. ReplacePod n env devPod st = Some (r, st') \<longrightarrow>
         (\<exists>evs. trace st' = trace st @ evs
            \<and> subseq (kindsOf evs) (concat (replicate n callOrder))))
   \<and> (\<forall>kind. kind \<noteq> KCreatePVC \<and> kind \<noteq> KGetPVC \<longrightarrow> count_list callOrder kind = 1)"
proof -
  have "creations exState + k = k"
    by (simp add: creations_def exState_def)
  from ReplacePod_conflicts [OF this] show ?thesis
    using replace_conflict [of env name target devPod _ st _ _ _ retry]
      ReplacePod_calls [of n env devPod st] callOrder_once
    by blast
qed

theorem ReplacePod_retry_unbounded_witness:
  "replace (ReplacePod 1 (exEnvConflicts 1) exDevPod) (exEnvConflicts 1) ''api-deploy-devspace''
       exScaledDeployment exDevPod exState
     = ReplacePod 1 (exEnvConflicts 1) exDevPod
         (logEvent (CreateReplicaSet (exBuild ''api-deploy-devspace'' exScaledDeployment exDevPod))
            (Some AlreadyExists) exState)
   \<and> returned (ReplacePod 1 (exEnvConflicts 1) exDevPod exState) = None
   \<and> returned (ReplacePod 2 (exEnvConflicts 1) exDevPod exState) = Some None
   \<and> callsMade (ReplacePod 2 (exEnvConflicts 1) exDevPod exState)
       = [KFindTargetBySelector, KSaveCache, KCreateReplicaSet,
          KGetReplicaSet, KFindTargetBySelector, KSaveCache, KCreateReplicaSet]
   \<and> subseq (callsMade (ReplacePod 2 (exEnvConflicts 1) exDevPod exState))
        (concat (replicate 2 callOrder))"
proof -
  let ?E = "exEnvConflicts 1"
  let ?obj = "exBuild ''api-deploy-devspace'' exScaledDeployment exDevPod"
  note t = ReplacePod_retry_unbounded [where env = ?E and name = "''api-deploy-devspace''"
      and target = exScaledDeployment and devPod = exDevPod and st = exState
      and retry = "ReplacePod 1 ?E exDevPod" and k = 1 and n = 2, unfolded Suc_1]
  have h1: "buildReplicaSet ?E ''api-deploy-devspace'' exScaledDeployment exDevPod = Inr ?obj"
    by (simp add: exEnvConflicts_def exEnv_def)
  have h2: "scaleDownTarget ?E exScaledDeployment exState
     = ((None, exScaledDeployment\<lparr>objAnnotations := Some (annotationsOf exScaledDeployment)\<rparr>), exState)"
    by (rule scaleDown_scaled)
  have h3: "createReplicaSet ?E (trace exState) ?obj = Inl AlreadyExists"
    by (simp add: exEnvConflicts_def exState_def)
  have h4: "IsAlreadyExists AlreadyExists"
    by simp
  have a: "replace (ReplacePod 1 ?E exDevPod) ?E ''api-deploy-devspace'' exScaledDeployment exDevPod exState
     = ReplacePod 1 ?E exDevPod (logEvent (CreateReplicaSet ?obj) (Some AlreadyExists) exState)"
    using t h1 h2 h3 h4 by blast
  have b: "returned (ReplacePod 1 ?E exDevPod exState) = None"
    "returned (ReplacePod 2 ?E exDevPod exState) = Some None"
    using t by blast+
  then obtain st' where run: "ReplacePod 2 ?E exDevPod exState = Some (None, st')"
    by (auto simp add: returned_def)
  with t obtain evs where "trace st' = trace exState @ evs"
    "subseq (kindsOf evs) (concat (replicate 2 callOrder))"
    by blast
  moreover have "trace exState = []"
    by (simp add: exState_def)
  ultimately have "subseq (kindsOf (trace st')) (concat (replicate 2 callOrder))"
    by simp
  then have c: "subseq (callsMade (ReplacePod 2 ?E exDevPod exState)) (concat (replicate 2 callOrder))"
    unfolding callsMade_def run by simp
  have d: "callsMade (ReplacePod 2 ?E exDevPod exState)
       = [KFindTargetBySelector, KSaveCache, KCreateReplicaSet,
          KGetReplicaSet, KFindTargetBySelector, KSaveCache, KCreateReplicaSet]"
    by code_simp
  show ?thesis
    using a b c d by blast
qed

text \<open>
  C1 at the input where the code departs from it. The cache entry of dev pod \<open>api\<close>
  names the replacement \<open>api-deploy-devspace\<close>, which the cluster has; the code asks
  the cluster for the replica set \<open>api\<close>, the name of the dev pod, is told that there
  is none, and goes on to replace the deployment again. As the name of the replacement
  is taken, that run does not return.
\<close>

theorem ReplacePod_fetches_by_dev_pod_name:
  "cache exStateApi (dpName exDevPod) = Some exCacheEntryApi
   \<and> cReplicaSet exCacheEntryApi = ''api-deploy-devspace''
   \<and> getReplicaSet exEnvStatic (trace exStateApi) (cNamespace exCacheEntryApi)
        (cReplicaSet exCacheEntryApi) = Inr exReplacement
   \<and> findReplaced exEnvStatic exDevPod exStateApi
       = Inr (exCacheEntryApi,
              exStateApi\<lparr>trace := [Event (GetReplicaSet ''dev'' ''api'') (Some NotFound)]\<rparr>)
   \<and> returned (ReplacePod 3 exEnvStatic exDevPod exStateApi) = None"
proof -
  have f: "findReplaced exEnvStatic exDevPod exStateApi
       = Inr (exCacheEntryApi,
              exStateApi\<lparr>trace := [Event (GetReplicaSet ''dev'' ''api'') (Some NotFound)]\<rparr>)"
    by (simp add: findReplaced_def lookupDevPod_def GetDevPod_def callGetReplicaSet_def
        logEvent_def errOf_def Let_def exEnvStatic_def exGet_def exDevPod_def exStateApi_def
        exCacheEntryApi_def)
  have g: "getReplicaSet exEnvStatic (trace exStateApi) (cNamespace exCacheEntryApi)
        (cReplicaSet exCacheEntryApi) = Inr exReplacement"
    by (simp add: exEnvStatic_def exGet_def exCacheEntryApi_def)
  have c: "cache exStateApi (dpName exDevPod) = Some exCacheEntryApi"
    by (simp add: exStateApi_def exDevPod_def)
  have n: "cReplicaSet exCacheEntryApi = ''api-deploy-devspace''"
    by (simp add: exCacheEntryApi_def)
  have r: "returned (ReplacePod 3 exEnvStatic exDevPod exStateApi) = None"
    by code_simp
  show ?thesis
    using f g c n r by blast
qed

end
